theory Spec2Isabelle
  imports Main "HOL-Library.Word"
begin

unbundle bit_operations_syntax

section \<open>Values of type double\<close>

text \<open>
  Every value of the language is a C++ \<^verbatim>\<open>double\<close>.  A double is modelled by its IEEE-754
  binary64 bit pattern: bit 63 is the sign, bits 62..52 the biased exponent, bits 51..0 the
  fraction.  Comparisons, the conversion to \<^verbatim>\<open>bool\<close>, negation and the conversions from
  and to integers are exact operations and are defined on the bit pattern.  The rounding
  operations (\<^verbatim>\<open>+ - * /\<close> and \<^verbatim>\<open>std::pow\<close>) are not defined here: they are fields of
  the record \<open>platform\<close> below, and every theorem holds for every choice of them.
\<close>

type_synonym double = "64 word"

definition sign_mask :: double where
  "sign_mask = 0x8000000000000000"

definition magnitude :: "double \<Rightarrow> double" where
  "magnitude d = d AND 0x7FFFFFFFFFFFFFFF"

definition d_zero :: double where
  "d_zero = 0"

definition d_one :: double where
  "d_one = 0x3FF0000000000000"

definition is_nan :: "double \<Rightarrow> bool" where
  "is_nan d = (0x7FF0000000000000 < magnitude d)"

text \<open>
  The position of a double on the number line, up to a monotone map: the magnitude bits,
  negated for a set sign bit.  Both zeros are at 0.
\<close>

definition d_key :: "double \<Rightarrow> int" where
  "d_key d = (if d AND sign_mask = 0 then uint (magnitude d) else - uint (magnitude d))"

definition d_eq :: "double \<Rightarrow> double \<Rightarrow> bool" where
  "d_eq a b = (\<not> is_nan a \<and> \<not> is_nan b \<and> d_key a = d_key b)"

definition d_lt :: "double \<Rightarrow> double \<Rightarrow> bool" where
  "d_lt a b = (\<not> is_nan a \<and> \<not> is_nan b \<and> d_key a < d_key b)"

definition d_le :: "double \<Rightarrow> double \<Rightarrow> bool" where
  "d_le a b = (\<not> is_nan a \<and> \<not> is_nan b \<and> d_key a \<le> d_key b)"

text \<open>The conversion of a double to \<^verbatim>\<open>bool\<close> (\<^verbatim>\<open>d ? .. : ..\<close>): true unless \<open>d\<close> is a zero.\<close>

definition truthy :: "double \<Rightarrow> bool" where
  "truthy d = (magnitude d \<noteq> 0)"

definition d_neg :: "double \<Rightarrow> double" where
  "d_neg d = d XOR sign_mask"

fun bit_length :: "nat \<Rightarrow> nat" where
  "bit_length n = (if n = 0 then 0 else Suc (bit_length (n div 2)))"

declare bit_length.simps [simp del]

text \<open>
  \<^verbatim>\<open>static_cast<double>(i)\<close> for an integer \<open>i\<close>.  It is exact for \<open>\<bar>i\<bar> < 2 ^ 53\<close>, which
  covers every \<^verbatim>\<open>int\<close> and every index of a vector; larger values are not converted by
  the engine.
\<close>

definition encode_double :: "bool \<Rightarrow> int \<Rightarrow> int \<Rightarrow> double" where
  "encode_double negative p m =
     word_of_int ((if negative then 2 ^ 63 else 0) + (1023 + p) * 2 ^ 52
                  + (m * 2 ^ nat (52 - p) - 2 ^ 52))"

definition double_of_int :: "int \<Rightarrow> double" where
  "double_of_int i =
     (if i = 0 then 0
      else encode_double (i < 0) (int (bit_length (nat \<bar>i\<bar>)) - 1) \<bar>i\<bar>)"

definition exponent :: "double \<Rightarrow> nat" where
  "exponent d = unat (drop_bit 52 (magnitude d))"

definition significand :: "double \<Rightarrow> nat" where
  "significand d = 2 ^ 52 + unat (d AND 0xFFFFFFFFFFFFF)"

text \<open>
  \<^verbatim>\<open>static_cast<int>(d)\<close>: truncation towards zero.  The conversion is undefined in C++ when
  the truncated value is not an \<^verbatim>\<open>int\<close> (this includes NaN and the infinities); the model
  returns \<open>None\<close> there.
\<close>

definition trunc_magnitude :: "double \<Rightarrow> nat" where
  "trunc_magnitude d =
     (if exponent d < 1023 then 0
      else if exponent d < 1075 then significand d div 2 ^ (1075 - exponent d)
      else significand d * 2 ^ (exponent d - 1075))"

definition int_of_double :: "double \<Rightarrow> int option" where
  "int_of_double d =
     (if exponent d = 2047 then None
      else let v = (if d AND sign_mask = 0 then int (trunc_magnitude d)
                    else - int (trunc_magnitude d))
           in if - (2 ^ 31) \<le> v \<and> v < 2 ^ 31 then Some v else None)"

text \<open>\<^verbatim>\<open>std::fmod(d, 1.0) == 0.0\<close>: \<open>d\<close> is finite and has no fractional part.\<close>

definition is_integral :: "double \<Rightarrow> bool" where
  "is_integral d =
     (exponent d \<noteq> 2047 \<and>
      (magnitude d = 0 \<or>
       (1023 \<le> exponent d \<and>
        (1075 \<le> exponent d \<or> significand d mod 2 ^ (1075 - exponent d) = 0))))"

section \<open>Outcomes\<close>

datatype error =
  InfiniteRecursionException
  | AssertionFailure
  | BadFunctionCall
  | UndefinedConversion
  | TurtleException string

text \<open>
  The outcome of running a piece of the program: it returns (\<open>Ok\<close>), it throws or aborts
  (\<open>Fatal\<close>), or the bound on the number of nested calls and loop rounds given to the
  interpreter was too small to reach its end (\<open>OutOfFuel\<close>).
\<close>

datatype 'a res = Ok 'a | Fatal error | OutOfFuel

fun and_then :: "'a res \<Rightarrow> ('a \<Rightarrow> 'b res) \<Rightarrow> 'b res" where
  "and_then (Ok x) f = f x"
| "and_then (Fatal e) f = Fatal e"
| "and_then OutOfFuel f = OutOfFuel"

section \<open>Operator information (BasicTokens.h)\<close>

text \<open>An \<^verbatim>\<open>int\<close> is a 32-bit two's complement word, compared as a signed number.\<close>

type_synonym cint = "32 word"

record OpInfo =
  op :: cint
  precedence :: cint
  left_to_right :: bool

definition postfix_binds_more_tightly :: "OpInfo \<Rightarrow> cint \<Rightarrow> bool" where
  "postfix_binds_more_tightly info outer_precedence =
     (if precedence info = 0 \<or> outer_precedence <s precedence info then False
      else if precedence info = outer_precedence \<and> left_to_right info then False
      else True)"

section \<open>The name environment (LexicalContext.h)\<close>

record Location =
  linenum :: nat
  charnum :: nat

text \<open>
  A context is a \<^verbatim>\<open>std::map\<close> from names to definitions; the stack of contexts is a
  \<^verbatim>\<open>std::list\<close> whose front is the innermost context.
\<close>

record 'd ContextEntry =
  start :: Location
  "context" :: "string \<rightharpoonup> 'd"

type_synonym 'd LexicalContextStack = "'d ContextEntry list"

definition new_entry :: "'d ContextEntry" where
  "new_entry = \<lparr>start = \<lparr>linenum = 0, charnum = 0\<rparr>, context = Map.empty\<rparr>"

definition push_context :: "'d LexicalContextStack \<Rightarrow> 'd LexicalContextStack" where
  "push_context m_stack = new_entry # m_stack"

definition pop_context :: "'d LexicalContextStack \<Rightarrow> 'd LexicalContextStack" where
  "pop_context m_stack = tl m_stack"

text \<open>
  \<^verbatim>\<open>define_name(name, accept_dup)\<close>.  \<^verbatim>\<open>try_emplace(name)\<close> inserts a default-constructed
  definition (\<open>dflt\<close>) when the innermost context has no entry for \<open>name\<close> and leaves the
  map alone otherwise; its \<^verbatim>\<open>second\<close> tells whether it inserted.  The returned pointer
  is modelled by the definition it points to (\<open>None\<close> for \<^verbatim>\<open>nullptr\<close>), next to the
  updated stack.
\<close>

definition try_emplace :: "(string \<rightharpoonup> 'd) \<Rightarrow> string \<Rightarrow> 'd \<Rightarrow> (string \<rightharpoonup> 'd) \<times> 'd \<times> bool" where
  "try_emplace m name v =
     (case m name of
        None \<Rightarrow> (m(name \<mapsto> v), v, True)
      | Some old \<Rightarrow> (m, old, False))"

definition define_name ::
  "'d \<Rightarrow> string \<Rightarrow> bool \<Rightarrow> 'd LexicalContextStack \<Rightarrow> error + ('d option \<times> 'd LexicalContextStack)" where
  "define_name dflt name accept_dup m_stack =
     (case m_stack of
        [] \<Rightarrow> Inl AssertionFailure
      | front # rest \<Rightarrow>
          (case try_emplace (context front) name dflt of
             (ctx, slot, inserted) \<Rightarrow>
               Inr (if inserted then Some slot else None, front\<lparr>context := ctx\<rparr> # rest)))"

fun lookup_name :: "'d LexicalContextStack \<Rightarrow> string \<Rightarrow> 'd option" where
  "lookup_name [] name = None"
| "lookup_name (entry # rest) name =
     (case context entry name of
        Some d \<Rightarrow> Some d
      | None \<Rightarrow> lookup_name rest name)"

section \<open>Frame stacks (FrameStack.h)\<close>

text \<open>
  A \<^verbatim>\<open>size_t\<close> is a natural number and an \<^verbatim>\<open>int\<close> offset or size an integer: the vector
  of a stack holds far fewer than \<open>2 ^ 31\<close> elements, so the conversions between the two
  are exact and the assertions are read over the integers.  A failed assertion is the
  outcome \<open>Fatal AssertionFailure\<close>.
\<close>

record 'a FrameStack =
  m_stack :: "'a list"
  m_frame_start :: nat
  m_frames :: "nat list"

definition reset :: "'a FrameStack" where
  "reset = \<lparr>m_stack = [], m_frame_start = 0, m_frames = []\<rparr>"

definition get_frame_size :: "'a FrameStack \<Rightarrow> int" where
  "get_frame_size fs = int (length (m_stack fs)) - int (m_frame_start fs)"

definition get_frame_start :: "'a FrameStack \<Rightarrow> int" where
  "get_frame_start fs = int (m_frame_start fs)"

definition get_stack_size :: "'a FrameStack \<Rightarrow> int" where
  "get_stack_size fs = int (length (m_stack fs))"

definition get_num_frames :: "'a FrameStack \<Rightarrow> int" where
  "get_num_frames fs = int (length (m_frames fs)) + 1"

text \<open>\<^verbatim>\<open>operator[](stack_offset)\<close>: relative to the start of the current frame.\<close>

definition at_offset :: "'a FrameStack \<Rightarrow> int \<Rightarrow> 'a res" where
  "at_offset fs stack_offset =
     (let i = int (m_frame_start fs) + stack_offset
      in if 0 \<le> i \<and> i < int (length (m_stack fs)) then Ok (m_stack fs ! nat i)
         else Fatal AssertionFailure)"

definition read_global :: "'a FrameStack \<Rightarrow> int \<Rightarrow> 'a res" where
  "read_global fs stack_offset =
     (if 0 \<le> stack_offset \<and> stack_offset < int (length (m_stack fs))
      then Ok (m_stack fs ! nat stack_offset)
      else Fatal AssertionFailure)"

definition push :: "'a \<Rightarrow> 'a FrameStack \<Rightarrow> 'a FrameStack" where
  "push val fs = fs\<lparr>m_stack := m_stack fs @ [val]\<rparr>"

definition pop :: "int \<Rightarrow> 'a FrameStack \<Rightarrow> 'a FrameStack res" where
  "pop sz fs =
     (if \<not> 0 \<le> sz then Fatal AssertionFailure
      else if \<not> int (m_frame_start fs) + sz \<le> int (length (m_stack fs)) then Fatal AssertionFailure
      else Ok (fs\<lparr>m_stack := take (length (m_stack fs) - nat sz) (m_stack fs)\<rparr>))"

text \<open>The two overloads of \<^verbatim>\<open>push_frame\<close>: without arguments, and with the two sizes.\<close>

definition push_frame0 :: "'a FrameStack \<Rightarrow> 'a FrameStack res" where
  "push_frame0 fs =
     (if \<not> m_frame_start fs \<le> length (m_stack fs) then Fatal AssertionFailure
      else Ok (fs\<lparr>m_frames := m_frames fs @ [m_frame_start fs],
                  m_frame_start := length (m_stack fs)\<rparr>))"

definition push_frame :: "int \<Rightarrow> int \<Rightarrow> 'a FrameStack \<Rightarrow> 'a FrameStack res" where
  "push_frame args_size params_size fs =
     (if \<not> 0 \<le> args_size then Fatal AssertionFailure
      else if \<not> 0 \<le> params_size then Fatal AssertionFailure
      else if \<not> params_size \<le> args_size then Fatal AssertionFailure
      else if \<not> int (m_frame_start fs) \<le> int (length (m_stack fs)) - args_size
        then Fatal AssertionFailure
      else
        let fs1 = fs\<lparr>m_frames := m_frames fs @ [m_frame_start fs]\<rparr>;
            fs2 = fs1\<lparr>m_frame_start := length (m_stack fs1) - nat args_size\<rparr>
        in if params_size < args_size
           then Ok (fs2\<lparr>m_stack := take (m_frame_start fs2 + nat params_size) (m_stack fs2)\<rparr>)
           else Ok fs2)"

definition pop_frame :: "'a FrameStack \<Rightarrow> (int \<times> 'a FrameStack) res" where
  "pop_frame fs =
     (if m_frames fs = [] then Fatal AssertionFailure
      else
        let sz = get_frame_size fs;
            fs1 = fs\<lparr>m_frame_start := last (m_frames fs)\<rparr>;
            fs2 = fs1\<lparr>m_frames := butlast (m_frames fs1)\<rparr>
        in and_then (pop sz fs2) (\<lambda>fs3. Ok (sz, fs3)))"

section \<open>Token codes (BasicTokens.h, Tokens.h)\<close>

text \<open>Punctuation tokens are their ASCII codes; the named tokens count up from 1000.\<close>

definition tk_bang :: cint where "tk_bang = 33"
definition tk_star :: cint where "tk_star = 42"
definition tk_plus :: cint where "tk_plus = 43"
definition tk_minus :: cint where "tk_minus = 45"
definition tk_slash :: cint where "tk_slash = 47"
definition tk_lt :: cint where "tk_lt = 60"
definition tk_gt :: cint where "tk_gt = 62"
definition tk_question :: cint where "tk_question = 63"
definition tk_equality :: cint where "tk_equality = 1009"
definition tk_inequality :: cint where "tk_inequality = 1010"
definition tk_or :: cint where "tk_or = 1011"
definition tk_and :: cint where "tk_and = 1012"
definition tk_pow :: cint where "tk_pow = 1013"
definition tk_ge :: cint where "tk_ge = 1014"
definition tk_le :: cint where "tk_le = 1015"

section \<open>The runtime stacks (EngineStack.h)\<close>

record Size =
  locals :: int
  captures :: int

record EngineStack =
  m_locals :: "double FrameStack"
  m_captures :: "double FrameStack"

definition stack_reset :: EngineStack where
  "stack_reset = \<lparr>m_locals = reset, m_captures = reset\<rparr>"

definition stack_get_frame_size :: "EngineStack \<Rightarrow> Size" where
  "stack_get_frame_size st =
     \<lparr>locals = get_frame_size (m_locals st), captures = get_frame_size (m_captures st)\<rparr>"

definition stack_get_stack_size :: "EngineStack \<Rightarrow> Size" where
  "stack_get_stack_size st =
     \<lparr>locals = get_stack_size (m_locals st), captures = get_stack_size (m_captures st)\<rparr>"

definition check_stack_size :: "EngineStack \<Rightarrow> int \<Rightarrow> bool" where
  "check_stack_size st max_size =
     (get_stack_size (m_locals st) < max_size \<and> get_stack_size (m_captures st) < max_size)"

definition get_capture_frame_start :: "EngineStack \<Rightarrow> int" where
  "get_capture_frame_start st = get_frame_start (m_captures st)"

text \<open>
  The closure position is the word stored just below the current frame of the locals; it
  must be a non-negative whole number.
\<close>

definition get_closure_position :: "EngineStack \<Rightarrow> int res" where
  "get_closure_position st =
     and_then (at_offset (m_locals st) (- 1)) (\<lambda>pos.
       if \<not> d_le d_zero pos then Fatal AssertionFailure
       else if \<not> is_integral pos then Fatal AssertionFailure
       else case int_of_double pos of
              None \<Rightarrow> Fatal UndefinedConversion
            | Some i \<Rightarrow> Ok i)"

definition read_capture :: "EngineStack \<Rightarrow> int \<Rightarrow> double res" where
  "read_capture st capture_offset =
     and_then (get_closure_position st) (\<lambda>position.
       read_global (m_captures st) (position + capture_offset))"

definition stack_push_frame :: "Size \<Rightarrow> Size \<Rightarrow> EngineStack \<Rightarrow> EngineStack res" where
  "stack_push_frame args params st =
     and_then (push_frame (locals args) (locals params) (m_locals st)) (\<lambda>l.
     and_then (push_frame (captures args) (captures params) (m_captures st)) (\<lambda>c.
       Ok \<lparr>m_locals = l, m_captures = c\<rparr>))"

definition stack_pop_frame :: "EngineStack \<Rightarrow> (Size \<times> EngineStack) res" where
  "stack_pop_frame st =
     and_then (pop_frame (m_locals st)) (\<lambda>(ln, l).
     and_then (pop_frame (m_captures st)) (\<lambda>(cn, c).
       Ok (\<lparr>locals = ln, captures = cn\<rparr>, \<lparr>m_locals = l, m_captures = c\<rparr>)))"

definition stack_push :: "double \<Rightarrow> EngineStack \<Rightarrow> EngineStack" where
  "stack_push val st = st\<lparr>m_locals := push val (m_locals st)\<rparr>"

definition push_capture :: "double \<Rightarrow> EngineStack \<Rightarrow> EngineStack" where
  "push_capture val st = st\<lparr>m_captures := push val (m_captures st)\<rparr>"

definition stack_pop :: "Size \<Rightarrow> EngineStack \<Rightarrow> EngineStack res" where
  "stack_pop sz st =
     and_then (pop (locals sz) (m_locals st)) (\<lambda>l.
     and_then (pop (captures sz) (m_captures st)) (\<lambda>c.
       Ok \<lparr>m_locals = l, m_captures = c\<rparr>))"

section \<open>The engine's state (Engine.h)\<close>

text \<open>
  The turtle is a collaborator of the engine.  The engine reads its position, direction
  and pen height; the builtin commands are functions on the turtle that may throw.  The
  rest of the turtle's state is outside the model; \<open>turtle_calls\<close> is there for examples to
  record the commands they were given.
\<close>

record Turtle =
  turtle_x :: double
  turtle_y :: double
  turtle_dir :: double
  turtle_pen_height :: int
  turtle_calls :: "(string \<times> double list) list"

text \<open>
  What lies outside the engine: the rounding arithmetic of the floating-point unit, the
  order in which the compiler evaluates the operands of a call (C++ leaves it
  unspecified), and what the turtle does when the program has ended.
\<close>

record platform =
  fp_add :: "double \<Rightarrow> double \<Rightarrow> double"
  fp_sub :: "double \<Rightarrow> double \<Rightarrow> double"
  fp_mul :: "double \<Rightarrow> double \<Rightarrow> double"
  fp_div :: "double \<Rightarrow> double \<Rightarrow> double"
  fp_pow :: "double \<Rightarrow> double \<Rightarrow> double"
  args_left_to_right :: bool
  turtle_finish :: "Turtle \<Rightarrow> Turtle"

text \<open>
  The fields of the engine that execution reads or writes.  The statements of the chunks
  are not part of this record: they do not change while the program runs and are passed
  next to it.  The engine is modelled without a debug sink (\<^verbatim>\<open>m_debugger == nullptr\<close>).
\<close>

record ExecutionEngine =
  m_engine_stack :: EngineStack
  m_is_executing :: bool
  m_pen_height_became_negative :: bool
  m_next_unique_num :: cint
  m_turtle :: Turtle

datatype ValueDomain = Global | Capture | Local

section \<open>Expressions (Expression.h, Engine.cpp, ASTNode.cpp)\<close>

text \<open>
  An \<^verbatim>\<open>Expr\<close> is a \<^verbatim>\<open>std::function<double()>\<close>.  Each lambda expression of the source
  that makes one is a constructor here, holding what the lambda captures, and \<open>call\<close>
  runs its body.  \<open>NullExpr\<close> is the empty function object.
\<close>

datatype Expr =
  NullExpr
  | AccessConstant double
  | AccessValue ValueDomain int
  | TurtleXExpr
  | TurtleYExpr
  | TurtleDirExpr
  | UniqueValExpr
  | PrefixOpExpr cint Expr
  | BinaryOpExprExpr cint Expr Expr
  | BinaryOpCnstExpr cint double Expr
  | BinaryOpExprCnst cint Expr double
  | Conditional Operand Operand Operand
and Operand = E Expr | Cnst double

text \<open>The specialisations of the templates \<^verbatim>\<open>prefix_op<op>\<close> and \<^verbatim>\<open>binary_op<op>\<close>.\<close>

definition prefix_op :: "cint \<Rightarrow> (double \<Rightarrow> double) option" where
  "prefix_op opr =
     (if opr = tk_minus then Some (\<lambda>rhs. d_neg rhs)
      else if opr = tk_bang then Some (\<lambda>rhs. if truthy rhs then d_zero else d_one)
      else None)"

definition binary_op :: "platform \<Rightarrow> cint \<Rightarrow> (double \<Rightarrow> double \<Rightarrow> double) option" where
  "binary_op pf opr =
     (if opr = tk_plus then Some (\<lambda>lhs rhs. fp_add pf lhs rhs)
      else if opr = tk_minus then Some (\<lambda>lhs rhs. fp_sub pf lhs rhs)
      else if opr = tk_star then Some (\<lambda>lhs rhs. fp_mul pf lhs rhs)
      else if opr = tk_slash then Some (\<lambda>lhs rhs. fp_div pf lhs rhs)
      else if opr = tk_pow then Some (\<lambda>lhs rhs. fp_pow pf lhs rhs)
      else if opr = tk_equality then Some (\<lambda>lhs rhs. if d_eq lhs rhs then d_one else d_zero)
      else if opr = tk_inequality then Some (\<lambda>lhs rhs. if \<not> d_eq lhs rhs then d_one else d_zero)
      else if opr = tk_lt then Some (\<lambda>lhs rhs. if d_lt lhs rhs then d_one else d_zero)
      else if opr = tk_gt then Some (\<lambda>lhs rhs. if d_lt rhs lhs then d_one else d_zero)
      else if opr = tk_le then Some (\<lambda>lhs rhs. if d_le lhs rhs then d_one else d_zero)
      else if opr = tk_ge then Some (\<lambda>lhs rhs. if d_le rhs lhs then d_one else d_zero)
      else if opr = tk_or
        then Some (\<lambda>lhs rhs. if truthy lhs then lhs else (if truthy rhs then rhs else d_zero))
      else if opr = tk_and
        then Some (\<lambda>lhs rhs. if truthy lhs \<and> truthy rhs then rhs else d_zero)
      else None)"

definition apply_prefix_op :: "cint \<Rightarrow> double \<Rightarrow> double res" where
  "apply_prefix_op opr rhs =
     (case prefix_op opr of
        None \<Rightarrow> Fatal AssertionFailure
      | Some f \<Rightarrow> Ok (f rhs))"

definition apply_binary_op :: "platform \<Rightarrow> cint \<Rightarrow> double \<Rightarrow> double \<Rightarrow> double res" where
  "apply_binary_op pf opr lhs rhs =
     (case binary_op pf opr of
        None \<Rightarrow> Fatal AssertionFailure
      | Some f \<Rightarrow> Ok (f lhs rhs))"

text \<open>
  The two operands of \<^verbatim>\<open>binary_op<op>(lhs(), rhs())\<close> are evaluated in the order the
  compiler chose.
\<close>

definition eval_operands ::
  "platform \<Rightarrow> ('s \<Rightarrow> (double \<times> 's) res) \<Rightarrow> ('s \<Rightarrow> (double \<times> 's) res) \<Rightarrow> 's
     \<Rightarrow> ((double \<times> double) \<times> 's) res" where
  "eval_operands pf lhs rhs e =
     (if args_left_to_right pf
      then and_then (lhs e) (\<lambda>(a, e1). and_then (rhs e1) (\<lambda>(b, e2). Ok ((a, b), e2)))
      else and_then (rhs e) (\<lambda>(b, e1). and_then (lhs e1) (\<lambda>(a, e2). Ok ((a, b), e2))))"

definition read_from :: "ValueDomain \<Rightarrow> int \<Rightarrow> ExecutionEngine \<Rightarrow> double res" where
  "read_from source offset e =
     (case source of
        Local \<Rightarrow> at_offset (m_locals (m_engine_stack e)) offset
      | Capture \<Rightarrow> read_capture (m_engine_stack e) offset
      | Global \<Rightarrow> read_global (m_locals (m_engine_stack e)) offset)"

fun call :: "platform \<Rightarrow> Expr \<Rightarrow> ExecutionEngine \<Rightarrow> (double \<times> ExecutionEngine) res"
  and call_operand :: "platform \<Rightarrow> Operand \<Rightarrow> ExecutionEngine \<Rightarrow> (double \<times> ExecutionEngine) res"
where
  "call pf NullExpr e = Fatal BadFunctionCall"
| "call pf (AccessConstant val) e = Ok (val, e)"
| "call pf (AccessValue source offset) e =
     and_then (read_from source offset e) (\<lambda>v. Ok (v, e))"
| "call pf TurtleXExpr e = Ok (turtle_x (m_turtle e), e)"
| "call pf TurtleYExpr e = Ok (turtle_y (m_turtle e), e)"
| "call pf TurtleDirExpr e = Ok (turtle_dir (m_turtle e), e)"
| "call pf UniqueValExpr e =
     Ok (double_of_int (sint (m_next_unique_num e)),
         e\<lparr>m_next_unique_num := m_next_unique_num e + 1\<rparr>)"
| "call pf (PrefixOpExpr opr rhs) e =
     and_then (call pf rhs e) (\<lambda>(r, e1).
     and_then (apply_prefix_op opr r) (\<lambda>v. Ok (v, e1)))"
| "call pf (BinaryOpExprExpr opr lhs rhs) e =
     and_then (eval_operands pf (call pf lhs) (call pf rhs) e) (\<lambda>((l, r), e1).
     and_then (apply_binary_op pf opr l r) (\<lambda>v. Ok (v, e1)))"
| "call pf (BinaryOpCnstExpr opr lhs rhs) e =
     and_then (call pf rhs e) (\<lambda>(r, e1).
     and_then (apply_binary_op pf opr lhs r) (\<lambda>v. Ok (v, e1)))"
| "call pf (BinaryOpExprCnst opr lhs rhs) e =
     and_then (call pf lhs e) (\<lambda>(l, e1).
     and_then (apply_binary_op pf opr l rhs) (\<lambda>v. Ok (v, e1)))"
| "call pf (Conditional l r t) e =
     and_then (call_operand pf l e) (\<lambda>(c, e1).
       if truthy c then call_operand pf r e1 else call_operand pf t e1)"
| "call_operand pf (E ex) e = call pf ex e"
| "call_operand pf (Cnst c) e = Ok (c, e)"

text \<open>The closures the engine hands to the parser.\<close>

definition compile_access_constant :: "double \<Rightarrow> Expr" where
  "compile_access_constant val = AccessConstant val"

definition compile_access_value :: "ValueDomain \<Rightarrow> int \<Rightarrow> Expr" where
  "compile_access_value source offset = AccessValue source offset"

definition compile_turtle_x_expr :: Expr where
  "compile_turtle_x_expr = TurtleXExpr"

definition compile_turtle_y_expr :: Expr where
  "compile_turtle_y_expr = TurtleYExpr"

definition compile_turtle_dir_expr :: Expr where
  "compile_turtle_dir_expr = TurtleDirExpr"

definition compile_unique_val_expr :: Expr where
  "compile_unique_val_expr = UniqueValExpr"

section \<open>AST nodes and the constant-folding combinators (ASTNode.h, ASTNode.cpp)\<close>

datatype ASTNode = Invalid | Expression Expr | Constant double

definition is_constexpr :: "ASTNode \<Rightarrow> bool" where
  "is_constexpr n = (case n of Constant v \<Rightarrow> True | _ \<Rightarrow> False)"

text \<open>
  \<open>get_expression\<close> of an invalid node is the empty function object the node was
  constructed with.
\<close>

definition get_expression :: "ASTNode \<Rightarrow> Expr res" where
  "get_expression n =
     (case n of
        Constant v \<Rightarrow> Fatal AssertionFailure
      | Expression ex \<Rightarrow> Ok ex
      | Invalid \<Rightarrow> Ok NullExpr)"

definition get_constant :: "ASTNode \<Rightarrow> double res" where
  "get_constant n =
     (case n of
        Constant v \<Rightarrow> Ok v
      | _ \<Rightarrow> Fatal AssertionFailure)"

text \<open>
  A factory \<^verbatim>\<open>MakePrefixOp<op>\<close> or \<^verbatim>\<open>MakeBinaryOp<op>\<close> is known by its operator; the
  static maps hold one for each operator that has a specialisation.
\<close>

definition get_prefix_operator_factory :: "cint \<Rightarrow> cint res" where
  "get_prefix_operator_factory opr =
     (if opr = tk_minus \<or> opr = tk_bang then Ok opr else Fatal AssertionFailure)"

definition MakePrefixOp_create_Expr :: "cint \<Rightarrow> Expr \<Rightarrow> ASTNode res" where
  "MakePrefixOp_create_Expr factory rhs = Ok (Expression (PrefixOpExpr factory rhs))"

definition MakePrefixOp_create_double :: "cint \<Rightarrow> double \<Rightarrow> ASTNode res" where
  "MakePrefixOp_create_double factory rhs =
     and_then (apply_prefix_op factory rhs) (\<lambda>v. Ok (Constant v))"

definition create_prefix_op_expr :: "cint \<Rightarrow> ASTNode \<Rightarrow> ASTNode res" where
  "create_prefix_op_expr opr rhs =
     and_then (get_prefix_operator_factory opr) (\<lambda>factory.
       if is_constexpr rhs
       then and_then (get_constant rhs) (MakePrefixOp_create_double factory)
       else and_then (get_expression rhs) (MakePrefixOp_create_Expr factory))"

definition get_binary_operator_factory :: "cint \<Rightarrow> cint res" where
  "get_binary_operator_factory opr =
     (if opr \<in> {tk_plus, tk_minus, tk_star, tk_slash, tk_pow, tk_equality, tk_inequality,
                 tk_or, tk_and, tk_lt, tk_gt, tk_le, tk_ge}
      then Ok opr else Fatal AssertionFailure)"

definition MakeBinaryOp_create_Expr_Expr :: "cint \<Rightarrow> Expr \<Rightarrow> Expr \<Rightarrow> ASTNode res" where
  "MakeBinaryOp_create_Expr_Expr factory lhs rhs =
     Ok (Expression (BinaryOpExprExpr factory lhs rhs))"

definition MakeBinaryOp_create_double_Expr :: "cint \<Rightarrow> double \<Rightarrow> Expr \<Rightarrow> ASTNode res" where
  "MakeBinaryOp_create_double_Expr factory lhs rhs =
     Ok (Expression (BinaryOpCnstExpr factory lhs rhs))"

definition MakeBinaryOp_create_Expr_double :: "cint \<Rightarrow> Expr \<Rightarrow> double \<Rightarrow> ASTNode res" where
  "MakeBinaryOp_create_Expr_double factory lhs rhs =
     Ok (Expression (BinaryOpExprCnst factory lhs rhs))"

definition MakeBinaryOp_create_double_double ::
  "platform \<Rightarrow> cint \<Rightarrow> double \<Rightarrow> double \<Rightarrow> ASTNode res" where
  "MakeBinaryOp_create_double_double pf factory lhs rhs =
     and_then (apply_binary_op pf factory lhs rhs) (\<lambda>v. Ok (Constant v))"

definition create_binary_op_expr :: "platform \<Rightarrow> cint \<Rightarrow> ASTNode \<Rightarrow> ASTNode \<Rightarrow> ASTNode res" where
  "create_binary_op_expr pf opr lhs rhs =
     and_then (get_binary_operator_factory opr) (\<lambda>factory.
       if is_constexpr lhs
       then (if is_constexpr rhs
             then and_then (get_constant lhs) (\<lambda>l. and_then (get_constant rhs) (\<lambda>r.
                    MakeBinaryOp_create_double_double pf factory l r))
             else and_then (get_constant lhs) (\<lambda>l. and_then (get_expression rhs) (\<lambda>r.
                    MakeBinaryOp_create_double_Expr factory l r)))
       else (if is_constexpr rhs
             then and_then (get_expression lhs) (\<lambda>l. and_then (get_constant rhs) (\<lambda>r.
                    MakeBinaryOp_create_Expr_double factory l r))
             else and_then (get_expression lhs) (\<lambda>l. and_then (get_expression rhs) (\<lambda>r.
                    MakeBinaryOp_create_Expr_Expr factory l r))))"

text \<open>
  \<^verbatim>\<open>create_conditional(l, r, t)\<close> is a template over the types of its three operands, each
  an \<^verbatim>\<open>Expr\<close> or a \<^verbatim>\<open>Cnst\<close>.  Whatever they are, it returns the node of a lambda that
  calls the matching overload of \<^verbatim>\<open>condexp::f\<close>.
\<close>

definition create_conditional :: "Operand \<Rightarrow> Operand \<Rightarrow> Operand \<Rightarrow> ASTNode" where
  "create_conditional l r t = Expression (Conditional l r t)"

definition create_conditional_expr :: "ASTNode \<Rightarrow> ASTNode \<Rightarrow> ASTNode \<Rightarrow> ASTNode res" where
  "create_conditional_expr lhs rhs third =
     (if is_constexpr lhs
      then (if is_constexpr rhs
            then (if is_constexpr third
                  then and_then (get_constant lhs) (\<lambda>l. and_then (get_constant rhs) (\<lambda>r.
                       and_then (get_constant third) (\<lambda>t.
                         Ok (create_conditional (Cnst l) (Cnst r) (Cnst t)))))
                  else and_then (get_constant lhs) (\<lambda>l. and_then (get_constant rhs) (\<lambda>r.
                       and_then (get_expression third) (\<lambda>t.
                         Ok (create_conditional (Cnst l) (Cnst r) (E t))))))
            else (if is_constexpr third
                  then and_then (get_constant lhs) (\<lambda>l. and_then (get_expression rhs) (\<lambda>r.
                       and_then (get_constant third) (\<lambda>t.
                         Ok (create_conditional (Cnst l) (E r) (Cnst t)))))
                  else and_then (get_constant lhs) (\<lambda>l. and_then (get_expression rhs) (\<lambda>r.
                       and_then (get_expression third) (\<lambda>t.
                         Ok (create_conditional (Cnst l) (E r) (E t)))))))
      else (if is_constexpr rhs
            then (if is_constexpr third
                  then and_then (get_expression lhs) (\<lambda>l. and_then (get_constant rhs) (\<lambda>r.
                       and_then (get_constant third) (\<lambda>t.
                         Ok (create_conditional (E l) (Cnst r) (Cnst t)))))
                  else and_then (get_expression lhs) (\<lambda>l. and_then (get_constant rhs) (\<lambda>r.
                       and_then (get_expression third) (\<lambda>t.
                         Ok (create_conditional (E l) (Cnst r) (E t))))))
            else (if is_constexpr third
                  then and_then (get_expression lhs) (\<lambda>l. and_then (get_expression rhs) (\<lambda>r.
                       and_then (get_constant third) (\<lambda>t.
                         Ok (create_conditional (E l) (E r) (Cnst t)))))
                  else and_then (get_expression lhs) (\<lambda>l. and_then (get_expression rhs) (\<lambda>r.
                       and_then (get_expression third) (\<lambda>t.
                         Ok (create_conditional (E l) (E r) (E t))))))))"

text \<open>\<^verbatim>\<open>get_ast_node_expression\<close> of Parser.cpp: the function object of any node.\<close>

definition get_ast_node_expression :: "ASTNode \<Rightarrow> Expr" where
  "get_ast_node_expression n =
     (case n of
        Expression ex \<Rightarrow> ex
      | Constant val \<Rightarrow> AccessConstant val
      | Invalid \<Rightarrow> NullExpr)"

section \<open>The expressions of the language, as the parser reads them (Parser.cpp)\<close>

text \<open>
  The operands and operators \<^verbatim>\<open>parse_prefix_expression\<close> and
  \<^verbatim>\<open>parse_postfix_op_expression\<close> accept, after name resolution: a name is the constant
  it is bound to or the stack slot that holds its value.  \<open>build\<close> makes the calls to the
  engine and to the combinators that the parser makes for them.
\<close>

datatype SourceExpr =
  Number double
  | NamedConstant double
  | NamedValue ValueDomain int
  | TurtleX
  | TurtleY
  | TurtleDir
  | Unique
  | PrefixOp cint SourceExpr
  | BinaryOp cint SourceExpr SourceExpr
  | Ternary SourceExpr SourceExpr SourceExpr

fun build :: "platform \<Rightarrow> SourceExpr \<Rightarrow> ASTNode res" where
  "build pf (Number v) = Ok (Constant v)"
| "build pf (NamedConstant v) = Ok (Constant v)"
| "build pf (NamedValue source offset) = Ok (Expression (compile_access_value source offset))"
| "build pf TurtleX = Ok (Expression compile_turtle_x_expr)"
| "build pf TurtleY = Ok (Expression compile_turtle_y_expr)"
| "build pf TurtleDir = Ok (Expression compile_turtle_dir_expr)"
| "build pf Unique = Ok (Expression compile_unique_val_expr)"
| "build pf (PrefixOp opr x) =
     and_then (build pf x) (\<lambda>rhs. create_prefix_op_expr opr rhs)"
| "build pf (BinaryOp opr x y) =
     and_then (build pf x) (\<lambda>lhs. and_then (build pf y) (\<lambda>rhs.
       create_binary_op_expr pf opr lhs rhs))"
| "build pf (Ternary x y z) =
     and_then (build pf x) (\<lambda>lhs. and_then (build pf y) (\<lambda>rhs. and_then (build pf z) (\<lambda>third.
       create_conditional_expr lhs rhs third)))"

section \<open>Statements and chunks (Engine.h)\<close>

text \<open>
  A \<^verbatim>\<open>Statement\<close> is a \<^verbatim>\<open>std::function<void()>\<close>.  As for expressions, each lambda
  expression that the \<^verbatim>\<open>compile_\<close> functions and \<^verbatim>\<open>setup_turtle_fn\<close> pass to
  \<^verbatim>\<open>add_statement\<close> is a constructor holding what the lambda captures.  A builtin command
  holds the member function of the turtle it calls, as a function on the turtle.
\<close>

datatype Statement =
  PushValue ValueDomain Expr
  | PushConstant ValueDomain double
  | CopyStack ValueDomain ValueDomain int int
  | StartFnCall ValueDomain bool bool nat
  | CallFn nat Size
  | StartLambdaCall ValueDomain int
  | CallLambdaFn ValueDomain int Size
  | IfStatement Expr nat nat
  | ForCount Expr nat bool
  | ForRange Expr Expr nat bool
  | ForStep Expr Expr Expr nat bool
  | BreakpointStatement
  | TurtleFn "double list \<Rightarrow> Turtle \<Rightarrow> Turtle res" "Expr list"

datatype ChunkType = builtin_function_chunk | function_chunk | local_block_chunk

record FunctionInfo =
  params_size :: int
  closure_offset :: int

record LocalBlockInfo =
  unwind_size_locals :: int
  unwind_size_captures :: int

text \<open>
  The \<^verbatim>\<open>info\<close> of a chunk is a union of the two records; the engine reads the member
  that the type of the chunk selects.
\<close>

record Chunk =
  chunk_type :: ChunkType
  info_f :: FunctionInfo
  info_b :: LocalBlockInfo
  statements :: "Statement list"

definition is_closure_info :: "FunctionInfo \<Rightarrow> bool" where
  "is_closure_info f = (0 \<le> closure_offset f)"

definition get_unwind_size :: "LocalBlockInfo \<Rightarrow> Size" where
  "get_unwind_size b = \<lparr>locals = unwind_size_locals b, captures = unwind_size_captures b\<rparr>"

definition is_call_frame :: "Chunk \<Rightarrow> bool" where
  "is_call_frame c = (chunk_type c = function_chunk \<or> chunk_type c = builtin_function_chunk)"

definition is_local_block :: "Chunk \<Rightarrow> bool" where
  "is_local_block c = (chunk_type c = local_block_chunk)"

definition is_closure :: "Chunk \<Rightarrow> bool" where
  "is_closure c = (is_call_frame c \<and> is_closure_info (info_f c))"

definition is_builtin :: "Chunk \<Rightarrow> bool" where
  "is_builtin c = (chunk_type c = builtin_function_chunk)"

definition get_chunk :: "Chunk list \<Rightarrow> nat \<Rightarrow> Chunk res" where
  "get_chunk m_chunks index =
     (if index < length m_chunks then Ok (m_chunks ! index) else Fatal AssertionFailure)"

section \<open>Execution (Engine.cpp)\<close>

definition infinite_recursion_limit :: int where
  "infinite_recursion_limit = 1000000"

text \<open>The templates \<^verbatim>\<open>push<dest>\<close> and \<^verbatim>\<open>copy_stack<source, dest>\<close>.\<close>

definition push_to :: "ValueDomain \<Rightarrow> double \<Rightarrow> ExecutionEngine \<Rightarrow> ExecutionEngine res" where
  "push_to dest val e =
     (case dest of
        Local \<Rightarrow> Ok (e\<lparr>m_engine_stack := stack_push val (m_engine_stack e)\<rparr>)
      | Capture \<Rightarrow> Ok (e\<lparr>m_engine_stack := push_capture val (m_engine_stack e)\<rparr>)
      | Global \<Rightarrow> Fatal AssertionFailure)"

fun copy_stack_from ::
  "ValueDomain \<Rightarrow> ValueDomain \<Rightarrow> int \<Rightarrow> nat \<Rightarrow> ExecutionEngine \<Rightarrow> ExecutionEngine res" where
  "copy_stack_from source dest i 0 e = Ok e"
| "copy_stack_from source dest i (Suc k) e =
     and_then (read_from source i e) (\<lambda>v.
     and_then (push_to dest v e) (\<lambda>e1.
       copy_stack_from source dest (i + 1) k e1))"

definition copy_stack ::
  "ValueDomain \<Rightarrow> ValueDomain \<Rightarrow> int \<Rightarrow> int \<Rightarrow> ExecutionEngine \<Rightarrow> ExecutionEngine res" where
  "copy_stack source dest source_offset sz e =
     copy_stack_from source dest source_offset (nat sz) e"

definition get_fn_call_closure_position :: "bool \<Rightarrow> Chunk \<Rightarrow> ExecutionEngine \<Rightarrow> int res" where
  "get_fn_call_closure_position is_self_recursion c e =
     (if is_self_recursion then get_closure_position (m_engine_stack e)
      else
        let frame_start = get_capture_frame_start (m_engine_stack e);
            closure_position = frame_start + closure_offset (info_f c)
        in if 0 \<le> closure_position then Ok closure_position else Fatal AssertionFailure)"

definition exec_start_fn_call ::
  "Chunk list \<Rightarrow> ValueDomain \<Rightarrow> bool \<Rightarrow> bool \<Rightarrow> nat \<Rightarrow> ExecutionEngine \<Rightarrow> ExecutionEngine res" where
  "exec_start_fn_call m_chunks dest is_self_recursion is_lambda_call chunk_index e =
     and_then (if is_lambda_call then push_to dest (double_of_int (int chunk_index)) e else Ok e)
       (\<lambda>e1.
     and_then (get_chunk m_chunks chunk_index) (\<lambda>c.
       if is_closure c
       then and_then (get_fn_call_closure_position is_self_recursion c e1) (\<lambda>closure_position.
              push_to dest (double_of_int closure_position) e1)
       else if is_lambda_call then push_to dest (double_of_int 0) e1
       else Ok e1))"

text \<open>
  \<open>exec_statement\<close>, \<open>exec_statements\<close> and the functions that call them take the
  interpreter of statements as their first argument \<open>run\<close>: \<open>run stmt\<close> stands for the call
  \<^verbatim>\<open>stmt()\<close> of the function object.
\<close>

type_synonym runner = "Statement \<Rightarrow> ExecutionEngine \<Rightarrow> ExecutionEngine res"

definition exec_statement :: "runner \<Rightarrow> Statement \<Rightarrow> ExecutionEngine \<Rightarrow> ExecutionEngine res" where
  "exec_statement run stmt e =
     and_then (run stmt e) (\<lambda>e1.
       if \<not> m_pen_height_became_negative e1 \<and> turtle_pen_height (m_turtle e1) < 0
       then Ok (e1\<lparr>m_pen_height_became_negative := True\<rparr>)
       else Ok e1)"

fun exec_each :: "runner \<Rightarrow> Statement list \<Rightarrow> ExecutionEngine \<Rightarrow> ExecutionEngine res" where
  "exec_each run [] e = Ok e"
| "exec_each run (stmt # rest) e = and_then (exec_statement run stmt e) (exec_each run rest)"

definition exec_statements :: "runner \<Rightarrow> Statement list \<Rightarrow> ExecutionEngine \<Rightarrow> ExecutionEngine res" where
  "exec_statements run stmts e =
     (if \<not> check_stack_size (m_engine_stack e) infinite_recursion_limit
      then Fatal InfiniteRecursionException
      else exec_each run stmts e)"

definition with_stack ::
  "(EngineStack \<Rightarrow> EngineStack res) \<Rightarrow> ExecutionEngine \<Rightarrow> ExecutionEngine res" where
  "with_stack f e = and_then (f (m_engine_stack e)) (\<lambda>st. Ok (e\<lparr>m_engine_stack := st\<rparr>))"

definition exec_fn_body ::
  "runner \<Rightarrow> Size \<Rightarrow> int \<Rightarrow> bool \<Rightarrow> Statement list \<Rightarrow> ExecutionEngine \<Rightarrow> ExecutionEngine res" where
  "exec_fn_body run args_size params_sz has_closure_position stmts e =
     and_then (with_stack (stack_push_frame \<lparr>locals = locals args_size, captures = 0\<rparr>
                                            \<lparr>locals = params_sz, captures = 0\<rparr>) e) (\<lambda>e1.
     and_then (exec_statements run stmts e1) (\<lambda>e2.
     and_then (with_stack (\<lambda>st. and_then (stack_pop_frame st) (\<lambda>(sz, st1). Ok st1)) e2) (\<lambda>e3.
       with_stack (stack_pop \<lparr>locals = (if has_closure_position then 1 else 0),
                              captures = captures args_size\<rparr>) e3)))"

definition exec_call_fn ::
  "runner \<Rightarrow> Chunk list \<Rightarrow> nat \<Rightarrow> Size \<Rightarrow> ExecutionEngine \<Rightarrow> ExecutionEngine res" where
  "exec_call_fn run m_chunks fn_index args_size e =
     and_then (get_chunk m_chunks fn_index) (\<lambda>c.
       if \<not> is_call_frame c then Fatal AssertionFailure
       else exec_fn_body run args_size (params_size (info_f c)) (is_closure_info (info_f c))
              (statements c) e)"

definition exec_call_lambda ::
  "runner \<Rightarrow> Chunk list \<Rightarrow> nat \<Rightarrow> Size \<Rightarrow> ExecutionEngine \<Rightarrow> ExecutionEngine res" where
  "exec_call_lambda run m_chunks fn_index args_size e =
     and_then (get_chunk m_chunks fn_index) (\<lambda>c.
       if \<not> is_call_frame c then Fatal AssertionFailure
       else exec_fn_body run args_size (params_size (info_f c)) True (statements c) e)"

definition exec_call_local_block ::
  "runner \<Rightarrow> Chunk list \<Rightarrow> nat \<Rightarrow> ExecutionEngine \<Rightarrow> ExecutionEngine res" where
  "exec_call_local_block run m_chunks block_index e =
     and_then (get_chunk m_chunks block_index) (\<lambda>c.
       if \<not> is_local_block c then Fatal AssertionFailure
       else and_then (exec_statements run (statements c) e) (\<lambda>e1.
              with_stack (stack_pop (get_unwind_size (info_b c))) e1))"

text \<open>
  The loops of the three statements of \<^verbatim>\<open>compile_for_loop\<close>.  \<open>body\<close> is the call of the
  local block.  The counting loop makes \<open>count\<close> rounds.  The other two make a round as
  long as their test holds, which can be for ever; \<open>fuel\<close> bounds the number of rounds,
  and a loop that would make one more is \<open>OutOfFuel\<close>.
\<close>

definition loop_round ::
  "(ExecutionEngine \<Rightarrow> ExecutionEngine res) \<Rightarrow> bool \<Rightarrow> double \<Rightarrow> ExecutionEngine
     \<Rightarrow> ExecutionEngine res" where
  "loop_round body has_named_loop_var s e =
     body (if has_named_loop_var then e\<lparr>m_engine_stack := stack_push s (m_engine_stack e)\<rparr>
           else e)"

fun count_loop ::
  "(ExecutionEngine \<Rightarrow> ExecutionEngine res) \<Rightarrow> bool \<Rightarrow> int \<Rightarrow> nat \<Rightarrow> ExecutionEngine
     \<Rightarrow> ExecutionEngine res" where
  "count_loop body has_named_loop_var i 0 e = Ok e"
| "count_loop body has_named_loop_var i (Suc k) e =
     and_then (loop_round body has_named_loop_var (double_of_int i) e)
       (count_loop body has_named_loop_var (i + 1) k)"

fun up_loop ::
  "nat \<Rightarrow> (double \<Rightarrow> double \<Rightarrow> double) \<Rightarrow> (ExecutionEngine \<Rightarrow> ExecutionEngine res) \<Rightarrow> bool
     \<Rightarrow> double \<Rightarrow> double \<Rightarrow> double \<Rightarrow> ExecutionEngine \<Rightarrow> ExecutionEngine res" where
  "up_loop 0 add body has_named_loop_var s inc en e =
     (if d_le s en then OutOfFuel else Ok e)"
| "up_loop (Suc fuel) add body has_named_loop_var s inc en e =
     (if d_le s en
      then and_then (loop_round body has_named_loop_var s e)
             (up_loop fuel add body has_named_loop_var (add s inc) inc en)
      else Ok e)"

fun down_loop ::
  "nat \<Rightarrow> (double \<Rightarrow> double \<Rightarrow> double) \<Rightarrow> (ExecutionEngine \<Rightarrow> ExecutionEngine res) \<Rightarrow> bool
     \<Rightarrow> double \<Rightarrow> double \<Rightarrow> double \<Rightarrow> ExecutionEngine \<Rightarrow> ExecutionEngine res" where
  "down_loop 0 sub body has_named_loop_var s inc en e =
     (if d_le en s then OutOfFuel else Ok e)"
| "down_loop (Suc fuel) sub body has_named_loop_var s inc en e =
     (if d_le en s
      then and_then (loop_round body has_named_loop_var s e)
             (down_loop fuel sub body has_named_loop_var (sub s inc) inc en)
      else Ok e)"

text \<open>The arguments of a builtin command, evaluated in the order the compiler chose.\<close>

fun eval_in_order :: "platform \<Rightarrow> Expr list \<Rightarrow> ExecutionEngine \<Rightarrow> (double list \<times> ExecutionEngine) res" where
  "eval_in_order pf [] e = Ok ([], e)"
| "eval_in_order pf (a # rest) e =
     and_then (call pf a e) (\<lambda>(v, e1).
     and_then (eval_in_order pf rest e1) (\<lambda>(vs, e2). Ok (v # vs, e2)))"

definition eval_args :: "platform \<Rightarrow> Expr list \<Rightarrow> ExecutionEngine \<Rightarrow> (double list \<times> ExecutionEngine) res" where
  "eval_args pf args e =
     (if args_left_to_right pf then eval_in_order pf args e
      else and_then (eval_in_order pf (rev args) e) (\<lambda>(vs, e1). Ok (rev vs, e1)))"

text \<open>The index of a chunk read back from a stack slot: \<^verbatim>\<open>static_cast<size_t>(fn_index)\<close>.\<close>

definition size_t_of_double :: "double \<Rightarrow> nat res" where
  "size_t_of_double d =
     (if \<not> d_le d_zero d then Fatal AssertionFailure
      else if \<not> is_integral d then Fatal AssertionFailure
      else if 2 ^ 64 \<le> trunc_magnitude d then Fatal UndefinedConversion
      else Ok (trunc_magnitude d))"

text \<open>
  \<open>invoke fuel pf m_chunks stmt\<close> is the call \<^verbatim>\<open>stmt()\<close>.  The calls of functions, lambdas
  and local blocks nest, and a function may call itself without end; \<open>fuel\<close> bounds the depth
  of the nesting and, in each loop, the number of rounds.
\<close>

primrec invoke :: "nat \<Rightarrow> platform \<Rightarrow> Chunk list \<Rightarrow> Statement \<Rightarrow> ExecutionEngine \<Rightarrow> ExecutionEngine res" where
  "invoke 0 pf m_chunks stmt e = OutOfFuel"
| "invoke (Suc fuel) pf m_chunks stmt e =
     (case stmt of
        PushValue dest ex \<Rightarrow>
          and_then (call pf ex e) (\<lambda>(val, e1). push_to dest val e1)
      | PushConstant dest val \<Rightarrow> push_to dest val e
      | CopyStack source dest offset sz \<Rightarrow> copy_stack source dest offset sz e
      | StartFnCall dest is_self_recursion is_lambda_call fn_index \<Rightarrow>
          exec_start_fn_call m_chunks dest is_self_recursion is_lambda_call fn_index e
      | CallFn fn_index args_size \<Rightarrow>
          exec_call_fn (invoke fuel pf m_chunks) m_chunks fn_index args_size e
      | StartLambdaCall source offset \<Rightarrow>
          (if source = Global then Fatal AssertionFailure
           else and_then (read_from source (offset + 1) e) (\<lambda>closure_position.
                  Ok (e\<lparr>m_engine_stack := stack_push closure_position (m_engine_stack e)\<rparr>)))
      | CallLambdaFn source offset args_size \<Rightarrow>
          (if source = Global then Fatal AssertionFailure
           else and_then (read_from source offset e) (\<lambda>fn_index.
                and_then (size_t_of_double fn_index) (\<lambda>i.
                  exec_call_lambda (invoke fuel pf m_chunks) m_chunks i args_size e)))
      | IfStatement condition if_body else_body \<Rightarrow>
          and_then (call pf condition e) (\<lambda>(c, e1).
            if truthy c then exec_call_local_block (invoke fuel pf m_chunks) m_chunks if_body e1
            else if else_body \<noteq> 0
              then exec_call_local_block (invoke fuel pf m_chunks) m_chunks else_body e1
            else Ok e1)
      | ForCount start_expr block_index has_named_loop_var \<Rightarrow>
          and_then (call pf start_expr e) (\<lambda>(s, e1).
            case int_of_double s of
              None \<Rightarrow> Fatal UndefinedConversion
            | Some count \<Rightarrow>
                count_loop (exec_call_local_block (invoke fuel pf m_chunks) m_chunks block_index)
                  has_named_loop_var 0 (nat count) e1)
      | ForRange start_expr end_expr block_index has_named_loop_var \<Rightarrow>
          and_then (call pf start_expr e) (\<lambda>(s, e1).
          and_then (call pf end_expr e1) (\<lambda>(en, e2).
            if d_le s en
            then up_loop fuel (fp_add pf)
                   (exec_call_local_block (invoke fuel pf m_chunks) m_chunks block_index)
                   has_named_loop_var s d_one en e2
            else down_loop fuel (fp_sub pf)
                   (exec_call_local_block (invoke fuel pf m_chunks) m_chunks block_index)
                   has_named_loop_var s d_one en e2))
      | ForStep start_expr step_expr end_expr block_index has_named_loop_var \<Rightarrow>
          and_then (call pf start_expr e) (\<lambda>(s, e1).
          and_then (call pf step_expr e1) (\<lambda>(inc, e2).
          and_then (call pf end_expr e2) (\<lambda>(en, e3).
            if d_le s en
            then up_loop fuel (fp_add pf)
                   (exec_call_local_block (invoke fuel pf m_chunks) m_chunks block_index)
                   has_named_loop_var s inc en e3
            else down_loop fuel (fp_sub pf)
                   (exec_call_local_block (invoke fuel pf m_chunks) m_chunks block_index)
                   has_named_loop_var s (if d_lt inc d_zero then d_neg inc else inc) en e3)))
      | BreakpointStatement \<Rightarrow> Ok e
      | TurtleFn fn args \<Rightarrow>
          and_then (eval_args pf args e) (\<lambda>(vals, e1).
          and_then (fn vals (m_turtle e1)) (\<lambda>t. Ok (e1\<lparr>m_turtle := t\<rparr>))))"

text \<open>
  \<^verbatim>\<open>compile_for_loop\<close> chooses one of its three statements by which of the expressions are
  empty function objects, and appends it to the current chunk; the model returns it.
\<close>

definition compile_for_loop :: "Expr \<Rightarrow> Expr \<Rightarrow> Expr \<Rightarrow> nat \<Rightarrow> bool \<Rightarrow> Statement res" where
  "compile_for_loop start_expr step_expr end_expr block_index has_named_loop_var =
     (if start_expr = NullExpr then Fatal AssertionFailure
      else if \<not> (end_expr \<noteq> NullExpr \<or> step_expr = NullExpr) then Fatal AssertionFailure
      else if end_expr = NullExpr
        then Ok (ForCount start_expr block_index has_named_loop_var)
      else if step_expr = NullExpr
        then Ok (ForRange start_expr end_expr block_index has_named_loop_var)
      else Ok (ForStep start_expr step_expr end_expr block_index has_named_loop_var))"

definition compile_if_statement :: "Expr \<Rightarrow> nat \<Rightarrow> nat \<Rightarrow> Statement res" where
  "compile_if_statement condition if_body else_body =
     (if condition = NullExpr then Fatal AssertionFailure
      else Ok (IfStatement condition if_body else_body))"

text \<open>
  \<open>no_chunk\<close> is a constant of EngineTypes.h, which is not among the sources; it is an
  argument here.
\<close>

definition execute_main ::
  "nat \<Rightarrow> platform \<Rightarrow> Chunk list \<Rightarrow> nat \<Rightarrow> nat \<Rightarrow> ExecutionEngine \<Rightarrow> ExecutionEngine res" where
  "execute_main fuel pf m_chunks no_chunk chunk_index e =
     (if chunk_index = no_chunk then Fatal AssertionFailure
      else
        let e1 = e\<lparr>m_engine_stack := stack_reset\<rparr>;
            e2 = e1\<lparr>m_is_executing := True\<rparr>
        in and_then (exec_call_fn (invoke fuel pf m_chunks) m_chunks chunk_index
                       \<lparr>locals = 0, captures = 0\<rparr> e2) (\<lambda>e3.
             Ok (e3\<lparr>m_turtle := turtle_finish pf (m_turtle e3)\<rparr>)))"

text \<open>The engine as its constructor leaves it.\<close>

definition new_engine :: "Turtle \<Rightarrow> ExecutionEngine" where
  "new_engine t =
     \<lparr>m_engine_stack = stack_reset, m_is_executing = False,
      m_pen_height_became_negative = False, m_next_unique_num = 1, m_turtle = t\<rparr>"

section \<open>Reference evaluators for the expressions of the language\<close>

text \<open>What evaluating a node gives: a constant node is its value.\<close>

definition node_eval :: "platform \<Rightarrow> ASTNode \<Rightarrow> ExecutionEngine \<Rightarrow> (double \<times> ExecutionEngine) res" where
  "node_eval pf n e = call pf (get_ast_node_expression n) e"

text \<open>
  Evaluating each operator of an expression eagerly, at the time it is parsed.  This is
  possible for an expression whose leaves are numbers and constant names only.
\<close>

fun constant_only :: "SourceExpr \<Rightarrow> bool" where
  "constant_only (Number v) = True"
| "constant_only (NamedConstant v) = True"
| "constant_only (PrefixOp opr x) = constant_only x"
| "constant_only (BinaryOp opr x y) = (constant_only x \<and> constant_only y)"
| "constant_only (Ternary x y z) = (constant_only x \<and> constant_only y \<and> constant_only z)"
| "constant_only x = False"

fun eager :: "platform \<Rightarrow> SourceExpr \<Rightarrow> double res" where
  "eager pf (Number v) = Ok v"
| "eager pf (NamedConstant v) = Ok v"
| "eager pf (PrefixOp opr x) = and_then (eager pf x) (\<lambda>r. apply_prefix_op opr r)"
| "eager pf (BinaryOp opr x y) =
     and_then (eager pf x) (\<lambda>l. and_then (eager pf y) (\<lambda>r. apply_binary_op pf opr l r))"
| "eager pf (Ternary x y z) =
     and_then (eager pf x) (\<lambda>c. and_then (eager pf y) (\<lambda>l. and_then (eager pf z) (\<lambda>r.
       Ok (if truthy c then l else r))))"
| "eager pf x = Fatal AssertionFailure"

fun has_ternary :: "SourceExpr \<Rightarrow> bool" where
  "has_ternary (PrefixOp opr x) = has_ternary x"
| "has_ternary (BinaryOp opr x y) = (has_ternary x \<or> has_ternary y)"
| "has_ternary (Ternary x y z) = True"
| "has_ternary x = False"

text \<open>
  A short-circuiting evaluator, following the words of the specification: \<^verbatim>\<open>&&\<close> evaluates
  its right operand only when the left one is truthy, \<^verbatim>\<open>||\<close> only when the left one is
  not; \<^verbatim>\<open>&&\<close> returns the right operand's value if both operands are truthy and 0
  otherwise, \<^verbatim>\<open>||\<close> the first truthy operand's value and 0 otherwise.
\<close>

fun short_circuit_eval ::
  "platform \<Rightarrow> SourceExpr \<Rightarrow> ExecutionEngine \<Rightarrow> (double \<times> ExecutionEngine) res" where
  "short_circuit_eval pf (Number v) e = Ok (v, e)"
| "short_circuit_eval pf (NamedConstant v) e = Ok (v, e)"
| "short_circuit_eval pf (NamedValue source offset) e =
     and_then (read_from source offset e) (\<lambda>v. Ok (v, e))"
| "short_circuit_eval pf TurtleX e = Ok (turtle_x (m_turtle e), e)"
| "short_circuit_eval pf TurtleY e = Ok (turtle_y (m_turtle e), e)"
| "short_circuit_eval pf TurtleDir e = Ok (turtle_dir (m_turtle e), e)"
| "short_circuit_eval pf Unique e =
     Ok (double_of_int (sint (m_next_unique_num e)),
         e\<lparr>m_next_unique_num := m_next_unique_num e + 1\<rparr>)"
| "short_circuit_eval pf (PrefixOp opr x) e =
     and_then (short_circuit_eval pf x e) (\<lambda>(r, e1).
     and_then (apply_prefix_op opr r) (\<lambda>v. Ok (v, e1)))"
| "short_circuit_eval pf (BinaryOp opr x y) e =
     (if opr = tk_and then
        and_then (short_circuit_eval pf x e) (\<lambda>(l, e1).
          if truthy l
          then and_then (short_circuit_eval pf y e1) (\<lambda>(r, e2).
                 Ok (if truthy r then r else d_zero, e2))
          else Ok (d_zero, e1))
      else if opr = tk_or then
        and_then (short_circuit_eval pf x e) (\<lambda>(l, e1).
          if truthy l then Ok (l, e1)
          else and_then (short_circuit_eval pf y e1) (\<lambda>(r, e2).
                 Ok (if truthy r then r else d_zero, e2)))
      else
        and_then (eval_operands pf (short_circuit_eval pf x) (short_circuit_eval pf y) e)
          (\<lambda>((l, r), e1).
        and_then (apply_binary_op pf opr l r) (\<lambda>v. Ok (v, e1))))"
| "short_circuit_eval pf (Ternary x y z) e =
     and_then (short_circuit_eval pf x e) (\<lambda>(c, e1).
       if truthy c then short_circuit_eval pf y e1 else short_circuit_eval pf z e1)"

fun has_unique :: "SourceExpr \<Rightarrow> bool" where
  "has_unique Unique = True"
| "has_unique (PrefixOp opr x) = has_unique x"
| "has_unique (BinaryOp opr x y) = (has_unique x \<or> has_unique y)"
| "has_unique (Ternary x y z) = (has_unique x \<or> has_unique y \<or> has_unique z)"
| "has_unique x = False"

text \<open>No right operand of \<^verbatim>\<open>&&\<close> or \<^verbatim>\<open>||\<close> contains \<^verbatim>\<open>unique\<close>.\<close>

fun unique_free_rhs :: "SourceExpr \<Rightarrow> bool" where
  "unique_free_rhs (PrefixOp opr x) = unique_free_rhs x"
| "unique_free_rhs (BinaryOp opr x y) =
     (unique_free_rhs x \<and> unique_free_rhs y \<and>
      (if opr = tk_and \<or> opr = tk_or then \<not> has_unique y else True))"
| "unique_free_rhs (Ternary x y z) = (unique_free_rhs x \<and> unique_free_rhs y \<and> unique_free_rhs z)"
| "unique_free_rhs x = True"

section \<open>A platform for running examples\<close>

text \<open>
  On doubles that are whole numbers of small magnitude the sum, the difference and the
  product are whole numbers again and IEEE arithmetic is exact; \<open>whole_number_op\<close> computes
  them through the integers.  Elsewhere it returns a NaN: the examples do not go there.
\<close>

definition whole_number_op :: "(int \<Rightarrow> int \<Rightarrow> int) \<Rightarrow> double \<Rightarrow> double \<Rightarrow> double" where
  "whole_number_op f a b =
     (case (int_of_double a, int_of_double b) of
        (Some x, Some y) \<Rightarrow>
          if is_integral a \<and> is_integral b then double_of_int (f x y) else 0x7FF8000000000000
      | _ \<Rightarrow> 0x7FF8000000000000)"

definition example_platform :: platform where
  "example_platform =
     \<lparr>fp_add = whole_number_op (\<lambda>x y. x + y),
      fp_sub = whole_number_op (\<lambda>x y. x - y),
      fp_mul = whole_number_op (\<lambda>x y. x * y),
      fp_div = (\<lambda>a b. 0x7FF8000000000000),
      fp_pow = (\<lambda>a b. 0x7FF8000000000000),
      args_left_to_right = True,
      turtle_finish = (\<lambda>t. t)\<rparr>"

definition example_turtle :: Turtle where
  "example_turtle =
     \<lparr>turtle_x = 0, turtle_y = 0, turtle_dir = 0, turtle_pen_height = 0, turtle_calls = []\<rparr>"

section \<open>Notions used to state the properties\<close>

text \<open>The saved frame starts and the current frame start of both stacks.\<close>

definition frame_shape :: "ExecutionEngine \<Rightarrow> (nat list \<times> nat) \<times> (nat list \<times> nat)" where
  "frame_shape e =
     ((m_frames (m_locals (m_engine_stack e)), m_frame_start (m_locals (m_engine_stack e))),
      (m_frames (m_captures (m_engine_stack e)), m_frame_start (m_captures (m_engine_stack e))))"

text \<open>Running the body of a loop once for each value of a list, in order.\<close>

fun run_rounds ::
  "(ExecutionEngine \<Rightarrow> ExecutionEngine res) \<Rightarrow> bool \<Rightarrow> double list \<Rightarrow> ExecutionEngine
     \<Rightarrow> ExecutionEngine res" where
  "run_rounds body has_named_loop_var [] e = Ok e"
| "run_rounds body has_named_loop_var (v # vs) e =
     and_then (loop_round body has_named_loop_var v e) (run_rounds body has_named_loop_var vs)"

text \<open>
  The values of a loop \<^verbatim>\<open>for s..step..e\<close>, following the words of the specification: if
  \<open>s \<le> e\<close> they are \<open>s\<close>, \<open>s + step\<close>, \<open>s + step + step\<close>, ... as long as they are \<open>\<le> e\<close>,
  otherwise \<open>s\<close>, \<open>s - |step|\<close>, \<open>s - |step| - |step|\<close>, ... as long as they are \<open>\<ge> e\<close>.
  Each sum is rounded by the platform, as the loop variable is.
\<close>

definition d_abs :: "double \<Rightarrow> double" where
  "d_abs d = (if d_lt d d_zero then d_neg d else d)"

definition loop_value :: "platform \<Rightarrow> double \<Rightarrow> double \<Rightarrow> double \<Rightarrow> nat \<Rightarrow> double" where
  "loop_value pf s step en i =
     (if d_le s en then ((\<lambda>v. fp_add pf v step) ^^ i) s
      else ((\<lambda>v. fp_sub pf v (d_abs step)) ^^ i) s)"

definition in_range :: "double \<Rightarrow> double \<Rightarrow> double \<Rightarrow> bool" where
  "in_range s en v = (if d_le s en then d_le v en else d_le en v)"

text \<open>The value that the last of \<open>k\<close> successive evaluations of \<^verbatim>\<open>unique\<close> returns.\<close>

definition unique_value_at :: "platform \<Rightarrow> nat \<Rightarrow> ExecutionEngine \<Rightarrow> double res" where
  "unique_value_at pf k e =
     and_then (eval_in_order pf (replicate k compile_unique_val_expr) e) (\<lambda>(vs, e1).
       if vs = [] then Fatal AssertionFailure else Ok (last vs))"

section \<open>An example program\<close>

text \<open>
  The chunks of the program \<^verbatim>\<open>for v = 1..5..10 { r v }\<close>: chunk 0 is not used, chunk 1 is
  the builtin \<^verbatim>\<open>r\<close>, chunk 2 the global function of the file and chunk 3 the body of the
  loop.  The builtin records its call in the turtle.
\<close>

definition record_call :: "string \<Rightarrow> double list \<Rightarrow> Turtle \<Rightarrow> Turtle res" where
  "record_call name vals t = Ok (t\<lparr>turtle_calls := turtle_calls t @ [(name, vals)]\<rparr>)"

definition no_info_f :: FunctionInfo where
  "no_info_f = \<lparr>params_size = 0, closure_offset = - 1\<rparr>"

definition no_info_b :: LocalBlockInfo where
  "no_info_b = \<lparr>unwind_size_locals = 0, unwind_size_captures = 0\<rparr>"

definition example_loop :: Statement where
  "example_loop =
     ForStep (AccessConstant 0x3FF0000000000000) (AccessConstant 0x4014000000000000)
       (AccessConstant 0x4024000000000000) 3 True"

definition example_chunks :: "Chunk list" where
  "example_chunks =
     [\<lparr>chunk_type = function_chunk, info_f = no_info_f, info_b = no_info_b, statements = []\<rparr>,
      \<lparr>chunk_type = builtin_function_chunk,
       info_f = \<lparr>params_size = 1, closure_offset = - 1\<rparr>, info_b = no_info_b,
       statements = [TurtleFn (record_call ''r'') [AccessValue Local 0]]\<rparr>,
      \<lparr>chunk_type = function_chunk, info_f = no_info_f, info_b = no_info_b,
       statements = [example_loop]\<rparr>,
      \<lparr>chunk_type = local_block_chunk, info_f = no_info_f,
       info_b = \<lparr>unwind_size_locals = 1, unwind_size_captures = 0\<rparr>,
       statements = [StartFnCall Local False False 1,
                     PushValue Local (AccessValue Local 0),
                     CallFn 1 \<lparr>locals = 1, captures = 0\<rparr>]\<rparr>]"

text \<open>
  The engine while the global function of the example runs: both stacks are empty, with
  the frame of the call open, and the turtle has recorded \<open>calls\<close>.
\<close>

definition example_running :: "(string \<times> double list) list \<Rightarrow> ExecutionEngine" where
  "example_running calls =
     \<lparr>m_engine_stack =
        \<lparr>m_locals = \<lparr>m_stack = [], m_frame_start = 0, m_frames = [0]\<rparr>,
         m_captures = \<lparr>m_stack = [], m_frame_start = 0, m_frames = [0]\<rparr>\<rparr>,
      m_is_executing = True, m_pen_height_became_negative = False, m_next_unique_num = 1,
      m_turtle = example_turtle\<lparr>turtle_calls := calls\<rparr>\<rparr>"

text \<open>An engine whose stacks hold the given numbers of zeros.\<close>

definition engine_with_stack_sizes :: "nat \<Rightarrow> nat \<Rightarrow> ExecutionEngine" where
  "engine_with_stack_sizes nl nc =
     (new_engine example_turtle)
       \<lparr>m_engine_stack :=
          \<lparr>m_locals = \<lparr>m_stack = replicate nl 0, m_frame_start = 0, m_frames = []\<rparr>,
           m_captures = \<lparr>m_stack = replicate nc 0, m_frame_start = 0, m_frames = []\<rparr>\<rparr>\<rparr>"

section \<open>Properties\<close>

text \<open>
  Claim C7.  \<open>postfix_binds_more_tightly outer\<close> is true exactly when the operator's postfix
  precedence is not zero and either it is strictly smaller than \<open>outer\<close>, or it equals
  \<open>outer\<close> and the operator is not left-to-right associative.
\<close>

theorem postfix_binds_more_tightly_iff:
  "postfix_binds_more_tightly info outer \<longleftrightarrow>
     precedence info \<noteq> 0 \<and>
     (precedence info <s outer \<or> (precedence info = outer \<and> \<not> left_to_right info))"
  unfolding postfix_binds_more_tightly_def
  using signed.less_linear [of "precedence info" outer]
    signed.less_asym [of "precedence info" outer]
    signed.less_irrefl [of "precedence info"]
  by auto

theorem postfix_binds_more_tightly_witness:
  "postfix_binds_more_tightly \<lparr>op = 42, precedence = 5, left_to_right = True\<rparr> 6 \<and>
   \<not> postfix_binds_more_tightly \<lparr>op = 43, precedence = 6, left_to_right = True\<rparr> 6 \<and>
   postfix_binds_more_tightly \<lparr>op = 1013, precedence = 2, left_to_right = False\<rparr> 2"
  using postfix_binds_more_tightly_iff [of "\<lparr>op = 42, precedence = 5, left_to_right = True\<rparr>" 6]
    postfix_binds_more_tightly_iff [of "\<lparr>op = 43, precedence = 6, left_to_right = True\<rparr>" 6]
    postfix_binds_more_tightly_iff [of "\<lparr>op = 1013, precedence = 2, left_to_right = False\<rparr>" 2]
  by (simp add: word_sless_alt)

text \<open>
  Claim C6.  The claim says that \<open>define_name\<close> fails only when the innermost context
  already has the name and \<open>accept_dup\<close> is false, and that with \<open>accept_dup\<close> true it returns
  the existing definition.  The comment above the function says the same.  The function
  never reads \<open>accept_dup\<close>: whenever the innermost context already has the name it returns
  \<^verbatim>\<open>nullptr\<close> and leaves the stack as it was, also when \<open>accept_dup\<close> is true.
\<close>

theorem define_name_existing_accept_dup:
  assumes "context front name = Some d"
  shows "define_name dflt name True (front # rest) = Inr (None, front # rest)"
  using assms by (simp add: define_name_def try_emplace_def)

theorem define_name_existing_accept_dup_witness:
  "define_name (0::nat) ''x'' True
     [\<lparr>start = \<lparr>linenum = 1, charnum = 1\<rparr>, context = [''x'' \<mapsto> 7]\<rparr>] =
   Inr (None, [\<lparr>start = \<lparr>linenum = 1, charnum = 1\<rparr>, context = [''x'' \<mapsto> 7]\<rparr>])"
  using define_name_existing_accept_dup
    [of "\<lparr>start = \<lparr>linenum = 1, charnum = 1\<rparr>, context = [''x'' \<mapsto> 7]\<rparr>" "''x''" 7 0 "[]"]
  by simp

lemma define_name_fails_iff:
  "define_name dflt name accept_dup (front # rest) = Inr (r, st) \<Longrightarrow>
     r = None \<longleftrightarrow> context front name \<noteq> None"
  by (auto simp: define_name_def try_emplace_def split: option.splits)

text \<open>
  Claim C5.  For \<open>0 \<le> params_size \<le> args_size\<close> and at least \<open>args_size\<close> entries above the
  current frame start, \<open>push_frame args_size params_size\<close> succeeds; it appends the previous
  frame start to the saved frame starts, puts the new frame start \<open>args_size\<close> below the old
  top, keeps exactly the entries below \<open>frame start + params_size\<close> (which drops the extra
  arguments when \<open>params_size < args_size\<close> and is the whole stack otherwise), and every
  entry below the new frame start is the one that was there.
\<close>

theorem push_frame_effect:
  assumes "0 \<le> n_params" and "n_params \<le> n_args"
    and "int (m_frame_start fs) + n_args \<le> int (length (m_stack fs))"
  shows "\<exists>fs'. push_frame n_args n_params fs = Ok fs' \<and>
           m_frames fs' = m_frames fs @ [m_frame_start fs] \<and>
           int (m_frame_start fs') = int (length (m_stack fs)) - n_args \<and>
           m_stack fs' = take (m_frame_start fs' + nat n_params) (m_stack fs) \<and>
           (n_params < n_args \<longrightarrow>
              int (length (m_stack fs')) = int (m_frame_start fs') + n_params) \<and>
           (\<forall>i < m_frame_start fs'. m_stack fs' ! i = m_stack fs ! i)"
proof (cases "n_params < n_args")
  case True
  with assms show ?thesis
    by (auto simp: push_frame_def Let_def min_def)
next
  case False
  with assms have eq: "n_params = n_args" by simp
  with assms show ?thesis
    by (auto simp: push_frame_def Let_def)
qed

theorem push_frame_effect_witness:
  "push_frame 3 1 \<lparr>m_stack = [10, 20, 30, 40, 50 :: nat], m_frame_start = 1, m_frames = [0]\<rparr> =
     Ok \<lparr>m_stack = [10, 20, 30], m_frame_start = 2, m_frames = [0, 1]\<rparr>"
proof -
  let ?fs = "\<lparr>m_stack = [10, 20, 30, 40, 50 :: nat], m_frame_start = 1, m_frames = [0]\<rparr>"
  have "(0::int) \<le> 1" and "(1::int) \<le> 3"
    and "int (m_frame_start ?fs) + 3 \<le> int (length (m_stack ?fs))"
    by simp_all
  from push_frame_effect [OF this] show ?thesis
    by (auto simp: numeral_2_eq_2)
qed

subsection \<open>Expressions and the combinators\<close>

lemmas tk_defs = tk_bang_def tk_star_def tk_plus_def tk_minus_def tk_slash_def tk_lt_def tk_gt_def
  tk_question_def tk_equality_def tk_inequality_def tk_or_def tk_and_def tk_pow_def tk_ge_def tk_le_def

lemma and_then_Ok_iff [simp]: "and_then r f = Ok y \<longleftrightarrow> (\<exists>x. r = Ok x \<and> f x = Ok y)"
  by (cases r) auto

lemma binary_factory_apply:
  "get_binary_operator_factory opr = Ok f \<Longrightarrow> f = opr \<and> (\<exists>g. binary_op pf opr = Some g)"
  by (auto simp: get_binary_operator_factory_def binary_op_def split: if_splits)

lemma prefix_factory_apply:
  "get_prefix_operator_factory opr = Ok f \<Longrightarrow> f = opr \<and> (\<exists>g. prefix_op opr = Some g)"
  by (auto simp: get_prefix_operator_factory_def prefix_op_def split: if_splits)

lemma node_eval_Constant [simp]: "node_eval pf (Constant v) e = Ok (v, e)"
  by (simp add: node_eval_def get_ast_node_expression_def)

lemma node_eval_prefix:
  assumes "create_prefix_op_expr opr r = Ok n"
  shows "node_eval pf n e =
           and_then (node_eval pf r e) (\<lambda>(v, e1). and_then (apply_prefix_op opr v) (\<lambda>w. Ok (w, e1)))"
proof -
  from assms obtain f where f: "get_prefix_operator_factory opr = Ok f"
    by (auto simp: create_prefix_op_expr_def)
  then have [simp]: "f = opr" by (auto dest: prefix_factory_apply)
  show ?thesis
  proof (cases r)
    case (Constant c)
    with assms f show ?thesis
      by (auto simp: create_prefix_op_expr_def is_constexpr_def get_constant_def
          MakePrefixOp_create_double_def)
  next
    case (Expression ex)
    with assms f show ?thesis
      by (auto simp: create_prefix_op_expr_def is_constexpr_def get_expression_def
          MakePrefixOp_create_Expr_def node_eval_def get_ast_node_expression_def)
  next
    case Invalid
    with assms f show ?thesis
      by (auto simp: create_prefix_op_expr_def is_constexpr_def get_expression_def
          MakePrefixOp_create_Expr_def node_eval_def get_ast_node_expression_def)
  qed
qed


lemma node_eval_Expression [simp]: "node_eval pf (Expression ex) e = call pf ex e"
  by (simp add: node_eval_def get_ast_node_expression_def)

lemma node_eval_Invalid [simp]: "node_eval pf Invalid e = Fatal BadFunctionCall"
  by (simp add: node_eval_def get_ast_node_expression_def)

lemma and_then_Fatal_iff [simp]:
  "and_then r f = Fatal x \<longleftrightarrow> r = Fatal x \<or> (\<exists>y. r = Ok y \<and> f y = Fatal x)"
  by (cases r) auto

lemma and_then_OutOfFuel_iff [simp]:
  "and_then r f = OutOfFuel \<longleftrightarrow> r = OutOfFuel \<or> (\<exists>y. r = Ok y \<and> f y = OutOfFuel)"
  by (cases r) auto

lemma node_eval_binary:
  assumes "create_binary_op_expr pf opr l r = Ok n"
  shows "node_eval pf n e =
           and_then (eval_operands pf (node_eval pf l) (node_eval pf r) e) (\<lambda>((a, b), e1).
           and_then (apply_binary_op pf opr a b) (\<lambda>v. Ok (v, e1)))"
proof -
  from assms obtain f where f: "get_binary_operator_factory opr = Ok f"
    by (auto simp: create_binary_op_expr_def)
  then have [simp]: "f = opr" by (auto dest: binary_factory_apply)
  note defs = create_binary_op_expr_def is_constexpr_def get_constant_def get_expression_def
    MakeBinaryOp_create_double_double_def MakeBinaryOp_create_double_Expr_def
    MakeBinaryOp_create_Expr_double_def MakeBinaryOp_create_Expr_Expr_def eval_operands_def
  show ?thesis
  proof (cases l)
    case lc: (Constant a)
    show ?thesis
    proof (cases r)
      case (Constant b)
      with lc assms f show ?thesis by (auto simp: defs)
    next
      case (Expression ex)
      with lc assms f show ?thesis by (cases "call pf ex e") (auto simp: defs)
    next
      case Invalid
      with lc assms f show ?thesis by (auto simp: defs)
    qed
  next
    case le: (Expression lx)
    show ?thesis
    proof (cases r)
      case (Constant b)
      with le assms f show ?thesis by (cases "call pf lx e") (auto simp: defs)
    next
      case (Expression ex)
      with le assms f show ?thesis by (auto simp: defs)
    next
      case Invalid
      with le assms f show ?thesis by (auto simp: defs)
    qed
  next
    case li: Invalid
    show ?thesis
    proof (cases r)
      case (Constant b)
      with li assms f show ?thesis by (auto simp: defs)
    next
      case (Expression ex)
      with li assms f show ?thesis by (auto simp: defs)
    next
      case Invalid
      with li assms f show ?thesis by (auto simp: defs)
    qed
  qed
qed

lemma node_eval_operand:
  "call_operand pf (case n of Constant c \<Rightarrow> Cnst c | Expression ex \<Rightarrow> E ex | Invalid \<Rightarrow> E NullExpr) e
     = node_eval pf n e"
  by (cases n) auto

lemma create_conditional_expr_eq:
  "create_conditional_expr l r t =
     Ok (Expression (Conditional
       (case l of Constant c \<Rightarrow> Cnst c | Expression ex \<Rightarrow> E ex | Invalid \<Rightarrow> E NullExpr)
       (case r of Constant c \<Rightarrow> Cnst c | Expression ex \<Rightarrow> E ex | Invalid \<Rightarrow> E NullExpr)
       (case t of Constant c \<Rightarrow> Cnst c | Expression ex \<Rightarrow> E ex | Invalid \<Rightarrow> E NullExpr)))"
  by (cases l; cases r; cases t)
     (simp_all add: create_conditional_expr_def create_conditional_def is_constexpr_def
        get_constant_def get_expression_def)

lemma node_eval_conditional:
  assumes "create_conditional_expr l r t = Ok n"
  shows "node_eval pf n e =
           and_then (node_eval pf l e) (\<lambda>(c, e1).
             if truthy c then node_eval pf r e1 else node_eval pf t e1)"
  using assms unfolding create_conditional_expr_eq
  by (auto simp: node_eval_operand cong: if_cong)


lemma create_prefix_op_expr_Constant:
  "create_prefix_op_expr opr (Constant v) = and_then (apply_prefix_op opr v) (\<lambda>w. Ok (Constant w))"
  by (auto simp: create_prefix_op_expr_def get_prefix_operator_factory_def is_constexpr_def
      get_constant_def MakePrefixOp_create_double_def apply_prefix_op_def prefix_op_def)

lemma create_binary_op_expr_Constant:
  "create_binary_op_expr pf opr (Constant a) (Constant b) =
     and_then (apply_binary_op pf opr a b) (\<lambda>w. Ok (Constant w))"
  by (auto simp: create_binary_op_expr_def get_binary_operator_factory_def is_constexpr_def
      get_constant_def MakeBinaryOp_create_double_double_def apply_binary_op_def binary_op_def)

lemma and_then_assoc: "and_then (and_then r f) g = and_then r (\<lambda>x. and_then (f x) g)"
  by (cases r) auto

lemma build_folds_without_ternary:
  "constant_only x \<Longrightarrow> \<not> has_ternary x \<Longrightarrow>
     build pf x = and_then (eager pf x) (\<lambda>v. Ok (Constant v))"
proof (induction x)
  case (PrefixOp opr x)
  then show ?case
    by (cases "eager pf x") (simp_all add: create_prefix_op_expr_Constant)
next
  case (BinaryOp opr x y)
  then show ?case
    by (cases "eager pf x"; cases "eager pf y") (simp_all add: create_binary_op_expr_Constant)
qed simp_all

lemma apply_binary_of_create:
  "create_binary_op_expr pf opr l r = Ok n \<Longrightarrow> \<exists>v. apply_binary_op pf opr a b = Ok v"
  by (auto simp: create_binary_op_expr_def apply_binary_op_def dest!: binary_factory_apply [where pf = pf])

lemma apply_prefix_of_create:
  "create_prefix_op_expr opr r = Ok n \<Longrightarrow> \<exists>v. apply_prefix_op opr a = Ok v"
  by (auto simp: create_prefix_op_expr_def apply_prefix_op_def dest!: prefix_factory_apply)

lemma eval_operands_pure:
  "f e = Ok (a, e) \<Longrightarrow> g e = Ok (b, e) \<Longrightarrow> eval_operands pf f g e = Ok ((a, b), e)"
  by (simp add: eval_operands_def)

lemma build_value_preserved:
  "constant_only x \<Longrightarrow> build pf x = Ok n \<Longrightarrow>
     \<exists>v. eager pf x = Ok v \<and> (\<forall>e. node_eval pf n e = Ok (v, e))"
proof (induction x arbitrary: n)
  case (PrefixOp opr x)
  from PrefixOp.prems obtain r where r: "build pf x = Ok r" "create_prefix_op_expr opr r = Ok n"
    by auto
  with PrefixOp obtain v where v: "eager pf x = Ok v" "\<forall>e. node_eval pf r e = Ok (v, e)"
    by fastforce
  from apply_prefix_of_create [OF r(2)] obtain w where w: "apply_prefix_op opr v = Ok w" by blast
  show ?case using v w by (simp add: node_eval_prefix [OF r(2)])
next
  case (BinaryOp opr x y)
  from BinaryOp.prems obtain l r where lr: "build pf x = Ok l" "build pf y = Ok r"
      "create_binary_op_expr pf opr l r = Ok n"
    by auto
  with BinaryOp obtain a b where ab: "eager pf x = Ok a" "\<forall>e. node_eval pf l e = Ok (a, e)"
      "eager pf y = Ok b" "\<forall>e. node_eval pf r e = Ok (b, e)"
    by fastforce
  from apply_binary_of_create [OF lr(3)] obtain w where w: "apply_binary_op pf opr a b = Ok w" by blast
  show ?case using ab w
    by (simp add: node_eval_binary [OF lr(3)] eval_operands_pure)
next
  case (Ternary x y z)
  from Ternary.prems obtain l r t where lrt: "build pf x = Ok l" "build pf y = Ok r"
      "build pf z = Ok t" "create_conditional_expr l r t = Ok n"
    by auto
  with Ternary obtain a b c where abc: "eager pf x = Ok a" "\<forall>e. node_eval pf l e = Ok (a, e)"
      "eager pf y = Ok b" "\<forall>e. node_eval pf r e = Ok (b, e)"
      "eager pf z = Ok c" "\<forall>e. node_eval pf t e = Ok (c, e)"
    by fastforce
  show ?case using abc
    by (simp add: node_eval_conditional [OF lrt(4)])
qed simp_all

lemma read_from_counter [simp]:
  "read_from source offset (e\<lparr>m_next_unique_num := c\<rparr>) = read_from source offset e"
  by (cases source) (simp_all add: read_from_def)

lemma call_only_counter:
  "call pf ex e = Ok (v, e') \<Longrightarrow> \<exists>c. e' = e\<lparr>m_next_unique_num := c\<rparr>"
  "call_operand pf opnd e = Ok (v, e') \<Longrightarrow> \<exists>c. e' = e\<lparr>m_next_unique_num := c\<rparr>"
proof (induction pf ex e and pf opnd e arbitrary: v e' and v e' rule: call_call_operand.induct)
  case (1 pf e)
  then show ?case by simp
next
  case (2 pf val e)
  then show ?case by (auto intro: exI [of _ "m_next_unique_num e"])
next
  case (3 pf source offset e)
  then show ?case by (auto intro: exI [of _ "m_next_unique_num e"])
next
  case (4 pf e)
  then show ?case by (auto intro: exI [of _ "m_next_unique_num e"])
next
  case (5 pf e)
  then show ?case by (auto intro: exI [of _ "m_next_unique_num e"])
next
  case (6 pf e)
  then show ?case by (auto intro: exI [of _ "m_next_unique_num e"])
next
  case (7 pf e)
  then show ?case by auto
next
  case (8 pf opr rhs e)
  then show ?case by auto
next
  case (9 pf opr lhs rhs e)
  show ?case
  proof (cases "args_left_to_right pf")
    case True
    with 9 show ?thesis by (fastforce simp: eval_operands_def)
  next
    case False
    with 9 show ?thesis by (fastforce simp: eval_operands_def)
  qed
next
  case (10 pf opr lhs rhs e)
  then show ?case by auto
next
  case (11 pf opr lhs rhs e)
  then show ?case by auto
next
  case (12 pf l r t e)
  then show ?case by (fastforce split: if_splits)
next
  case (13 pf ex e)
  then show ?case by auto
next
  case (14 pf c e)
  then show ?case by (auto intro: exI [of _ "m_next_unique_num e"])
qed


lemma pure_eval:
  "\<not> has_unique y \<Longrightarrow> build pf y = Ok n \<Longrightarrow> node_eval pf n e = Ok (b, e2) \<Longrightarrow>
     e2 = e \<and> node_eval pf n (e\<lparr>m_next_unique_num := c\<rparr>) = Ok (b, e\<lparr>m_next_unique_num := c\<rparr>)"
proof (induction y arbitrary: n e b e2 c)
  case (NamedValue source offset)
  then show ?case by (auto simp: compile_access_value_def)
next
  case TurtleX
  then show ?case by (auto simp: compile_turtle_x_expr_def)
next
  case TurtleY
  then show ?case by (auto simp: compile_turtle_y_expr_def)
next
  case TurtleDir
  then show ?case by (auto simp: compile_turtle_dir_expr_def)
next
  case (PrefixOp opr x)
  from PrefixOp.prems obtain r where r: "build pf x = Ok r" "create_prefix_op_expr opr r = Ok n"
    by auto
  from PrefixOp.prems(3) obtain v where v: "node_eval pf r e = Ok (v, e2)" "apply_prefix_op opr v = Ok b"
    by (auto simp: node_eval_prefix [OF r(2)])
  from PrefixOp.IH [OF _ r(1) v(1)] PrefixOp.prems(1) v(2) show ?case
    by (simp add: node_eval_prefix [OF r(2)])
next
  case (BinaryOp opr x y)
  from BinaryOp.prems obtain l r where lr: "build pf x = Ok l" "build pf y = Ok r"
      "create_binary_op_expr pf opr l r = Ok n"
    by auto
  from BinaryOp.prems(1) have px: "\<not> has_unique x" and py: "\<not> has_unique y" by auto
  from BinaryOp.prems(3) obtain u v where uv:
      "eval_operands pf (node_eval pf l) (node_eval pf r) e = Ok ((u, v), e2)"
      "apply_binary_op pf opr u v = Ok b"
    by (auto simp: node_eval_binary [OF lr(3)])
  have both: "node_eval pf l e = Ok (u, e) \<and> node_eval pf r e = Ok (v, e) \<and> e2 = e"
  proof (cases "args_left_to_right pf")
    case True
    with uv(1) obtain e1 where "node_eval pf l e = Ok (u, e1)" "node_eval pf r e1 = Ok (v, e2)"
      by (auto simp: eval_operands_def)
    with BinaryOp.IH(1) [OF px lr(1)] BinaryOp.IH(2) [OF py lr(2)] show ?thesis by metis
  next
    case False
    with uv(1) obtain e1 where "node_eval pf r e = Ok (v, e1)" "node_eval pf l e1 = Ok (u, e2)"
      by (auto simp: eval_operands_def)
    with BinaryOp.IH(1) [OF px lr(1)] BinaryOp.IH(2) [OF py lr(2)] show ?thesis by metis
  qed
  then have "node_eval pf l (e\<lparr>m_next_unique_num := c\<rparr>) = Ok (u, e\<lparr>m_next_unique_num := c\<rparr>)"
    and "node_eval pf r (e\<lparr>m_next_unique_num := c\<rparr>) = Ok (v, e\<lparr>m_next_unique_num := c\<rparr>)"
    using BinaryOp.IH(1) [OF px lr(1)] BinaryOp.IH(2) [OF py lr(2)] by blast+
  with both uv(2) show ?case
    by (simp add: node_eval_binary [OF lr(3)] eval_operands_pure)
next
  case (Ternary x y z)
  from Ternary.prems obtain l r t where lrt: "build pf x = Ok l" "build pf y = Ok r"
      "build pf z = Ok t" "create_conditional_expr l r t = Ok n"
    by auto
  from Ternary.prems(1) have px: "\<not> has_unique x" and py: "\<not> has_unique y"
    and pz: "\<not> has_unique z" by auto
  from Ternary.prems(3) obtain u e1 where u: "node_eval pf l e = Ok (u, e1)"
      "(if truthy u then node_eval pf r e1 else node_eval pf t e1) = Ok (b, e2)"
    by (auto simp: node_eval_conditional [OF lrt(4)])
  from Ternary.IH(1) [OF px lrt(1) u(1)] have e1: "e1 = e"
    and lc: "node_eval pf l (e\<lparr>m_next_unique_num := c\<rparr>) = Ok (u, e\<lparr>m_next_unique_num := c\<rparr>)"
    by blast+
  show ?case
  proof (cases "truthy u")
    case True
    with u(2) e1 have "node_eval pf r e = Ok (b, e2)" by simp
    from Ternary.IH(2) [OF py lrt(2) this] lc True show ?thesis
      by (simp add: node_eval_conditional [OF lrt(4)])
  next
    case False
    with u(2) e1 have "node_eval pf t e = Ok (b, e2)" by simp
    from Ternary.IH(3) [OF pz lrt(3) this] lc False show ?thesis
      by (simp add: node_eval_conditional [OF lrt(4)])
  qed
qed (auto simp: compile_unique_val_expr_def)


lemma eval_operands_mono:
  assumes "\<And>e r. f e = Ok r \<Longrightarrow> f' e = Ok r" and "\<And>e r. g e = Ok r \<Longrightarrow> g' e = Ok r"
    and "eval_operands pf f g e = Ok r"
  shows "eval_operands pf f' g' e = Ok r"
  using assms(3) by (auto simp: eval_operands_def split: if_splits dest!: assms(1,2))

lemma node_eval_only_counter:
  "node_eval pf n e = Ok (v, e') \<Longrightarrow> \<exists>c. e' = e\<lparr>m_next_unique_num := c\<rparr>"
  unfolding node_eval_def by (rule call_only_counter)

lemma operands_with_pure_rhs:
  assumes "\<not> has_unique y" and "build pf y = Ok r"
    and "eval_operands pf (node_eval pf l) (node_eval pf r) e = Ok ((a, b), e')"
  shows "node_eval pf l e = Ok (a, e') \<and> node_eval pf r e' = Ok (b, e')"
proof (cases "args_left_to_right pf")
  case True
  with assms(3) obtain e1 where "node_eval pf l e = Ok (a, e1)" "node_eval pf r e1 = Ok (b, e')"
    by (auto simp: eval_operands_def)
  with pure_eval [OF assms(1,2)] show ?thesis by metis
next
  case False
  with assms(3) obtain e1 where 1: "node_eval pf r e = Ok (b, e1)" "node_eval pf l e1 = Ok (a, e')"
    by (auto simp: eval_operands_def)
  from pure_eval [OF assms(1,2) 1(1)] have e1: "e1 = e"
    and any: "\<And>c. node_eval pf r (e\<lparr>m_next_unique_num := c\<rparr>) = Ok (b, e\<lparr>m_next_unique_num := c\<rparr>)"
    by blast+
  from 1(2) e1 have l: "node_eval pf l e = Ok (a, e')" by simp
  from node_eval_only_counter [OF l] obtain c where "e' = e\<lparr>m_next_unique_num := c\<rparr>" by blast
  with any [of c] l show ?thesis by simp
qed

lemma apply_and: "apply_binary_op pf tk_and a b = Ok (if truthy a \<and> truthy b then b else d_zero)"
  by (simp add: apply_binary_op_def binary_op_def tk_defs)

lemma apply_or:
  "apply_binary_op pf tk_or a b = Ok (if truthy a then a else if truthy b then b else d_zero)"
  by (simp add: apply_binary_op_def binary_op_def tk_defs)

lemma compiled_refines_short_circuit:
  "unique_free_rhs x \<Longrightarrow> build pf x = Ok n \<Longrightarrow> node_eval pf n e = Ok (v, e') \<Longrightarrow>
     short_circuit_eval pf x e = Ok (v, e')"
proof (induction x arbitrary: n e v e')
  case (NamedValue source offset)
  then show ?case by (auto simp: compile_access_value_def)
next
  case TurtleX
  then show ?case by (auto simp: compile_turtle_x_expr_def)
next
  case TurtleY
  then show ?case by (auto simp: compile_turtle_y_expr_def)
next
  case TurtleDir
  then show ?case by (auto simp: compile_turtle_dir_expr_def)
next
  case Unique
  then show ?case by (auto simp: compile_unique_val_expr_def)
next
  case (PrefixOp opr x)
  from PrefixOp.prems obtain r where r: "build pf x = Ok r" "create_prefix_op_expr opr r = Ok n"
    by auto
  from PrefixOp.prems(3) obtain u where u: "node_eval pf r e = Ok (u, e')" "apply_prefix_op opr u = Ok v"
    by (auto simp: node_eval_prefix [OF r(2)])
  from PrefixOp.IH [OF _ r(1) u(1)] PrefixOp.prems(1) u(2) show ?case by simp
next
  case (BinaryOp opr x y)
  from BinaryOp.prems obtain l r where lr: "build pf x = Ok l" "build pf y = Ok r"
      "create_binary_op_expr pf opr l r = Ok n"
    by auto
  from BinaryOp.prems(1) have ux: "unique_free_rhs x" and uy: "unique_free_rhs y" by auto
  from BinaryOp.prems(3) obtain a b where ab:
      "eval_operands pf (node_eval pf l) (node_eval pf r) e = Ok ((a, b), e')"
      "apply_binary_op pf opr a b = Ok v"
    by (auto simp: node_eval_binary [OF lr(3)])
  show ?case
  proof (cases "opr = tk_and \<or> opr = tk_or")
    case True
    with BinaryOp.prems(1) have py: "\<not> has_unique y" by auto
    from operands_with_pure_rhs [OF py lr(2) ab(1)]
    have "node_eval pf l e = Ok (a, e')" and "node_eval pf r e' = Ok (b, e')" by blast+
    with BinaryOp.IH(1) [OF ux lr(1)] BinaryOp.IH(2) [OF uy lr(2)]
    have sc: "short_circuit_eval pf x e = Ok (a, e')" "short_circuit_eval pf y e' = Ok (b, e')"
      by blast+
    from True show ?thesis
    proof
      assume "opr = tk_and"
      with ab(2) sc show ?thesis by (auto simp: apply_and)
    next
      assume "opr = tk_or"
      moreover have "tk_or \<noteq> tk_and" by (simp add: tk_defs)
      ultimately show ?thesis using ab(2) sc by (auto simp: apply_or)
    qed
  next
    case False
    have "eval_operands pf (short_circuit_eval pf x) (short_circuit_eval pf y) e = Ok ((a, b), e')"
    proof (rule eval_operands_mono [OF _ _ ab(1)])
      fix e0 r0 assume "node_eval pf l e0 = Ok r0"
      with BinaryOp.IH(1) [OF ux lr(1), of e0 "fst r0" "snd r0"]
      show "short_circuit_eval pf x e0 = Ok r0" by simp
    next
      fix e0 r0 assume "node_eval pf r e0 = Ok r0"
      with BinaryOp.IH(2) [OF uy lr(2), of e0 "fst r0" "snd r0"]
      show "short_circuit_eval pf y e0 = Ok r0" by simp
    qed
    with False ab(2) show ?thesis by simp
  qed
next
  case (Ternary x y z)
  from Ternary.prems obtain l r t where lrt: "build pf x = Ok l" "build pf y = Ok r"
      "build pf z = Ok t" "create_conditional_expr l r t = Ok n"
    by auto
  from Ternary.prems(1) have ux: "unique_free_rhs x" and uy: "unique_free_rhs y"
    and uz: "unique_free_rhs z" by auto
  from Ternary.prems(3) obtain u e1 where u: "node_eval pf l e = Ok (u, e1)"
      "(if truthy u then node_eval pf r e1 else node_eval pf t e1) = Ok (v, e')"
    by (auto simp: node_eval_conditional [OF lrt(4)])
  from Ternary.IH(1) [OF ux lrt(1) u(1)] have 1: "short_circuit_eval pf x e = Ok (u, e1)" .
  show ?case
  proof (cases "truthy u")
    case True
    with u(2) Ternary.IH(2) [OF uy lrt(2)] 1 show ?thesis by simp
  next
    case False
    with u(2) Ternary.IH(3) [OF uz lrt(3)] 1 show ?thesis by simp
  qed
qed auto

lemma bit_length_numeral:
  "bit_length 0 = 0"
  "bit_length 1 = 1"
  "bit_length (Suc 0) = 1"
  "bit_length (numeral k) = Suc (bit_length (numeral k div 2))"
  by (simp_all add: bit_length.simps)

lemmas double_of_int_eval = double_of_int_def encode_double_def bit_length_numeral

lemmas double_compare_eval = d_le_def d_lt_def d_eq_def d_key_def is_nan_def magnitude_def
  sign_mask_def truthy_def d_zero_def d_one_def

lemmas int_of_double_eval = int_of_double_def is_integral_def trunc_magnitude_def exponent_def
  significand_def magnitude_def sign_mask_def Let_def

text \<open>
  Claim C10.  For all doubles \<open>lhs\<close> and \<open>rhs\<close>, each of the six comparison operators and
  the prefix operator \<^verbatim>\<open>!\<close> returns the bit pattern of 0.0 or the bit pattern of 1.0.
\<close>

theorem comparisons_return_zero_or_one:
  "(\<forall>opr \<in> {tk_lt, tk_gt, tk_le, tk_ge, tk_equality, tk_inequality}.
      apply_binary_op pf opr lhs rhs = Ok 0 \<or>
      apply_binary_op pf opr lhs rhs = Ok 0x3FF0000000000000) \<and>
   (apply_prefix_op tk_bang rhs = Ok 0 \<or> apply_prefix_op tk_bang rhs = Ok 0x3FF0000000000000)"
  by (simp add: apply_binary_op_def binary_op_def apply_prefix_op_def prefix_op_def tk_defs
      d_zero_def d_one_def)

theorem comparisons_return_zero_or_one_witness:
  "apply_binary_op example_platform tk_lt 0x4008000000000000 0x7FF8000000000000 = Ok 0 \<and>
   apply_binary_op example_platform tk_inequality 0x7FF8000000000000 0x7FF8000000000000
     = Ok 0x3FF0000000000000 \<and>
   apply_binary_op example_platform tk_ge 0 0x8000000000000000 = Ok 0x3FF0000000000000 \<and>
   apply_prefix_op tk_bang 0x8000000000000000 = Ok 0x3FF0000000000000"
  using comparisons_return_zero_or_one
    [of example_platform "0x4008000000000000" "0x7FF8000000000000"]
  by (simp add: apply_binary_op_def binary_op_def apply_prefix_op_def prefix_op_def tk_defs
      double_compare_eval)

text \<open>
  Claim C1.  The claim says that the node built for an expression with constant leaves is
  a constant node holding the eagerly computed value, also for the ternary operator.
  \<open>create_prefix_op_expr\<close> and \<open>create_binary_op_expr\<close> do fold constant operands
  (\<open>build_folds_without_ternary\<close>).  \<open>create_conditional_expr\<close> does not: for three
  constant operands it returns the node of a deferred expression, whose evaluation gives
  the eager value (\<open>build_value_preserved\<close>).
\<close>

theorem ternary_of_constants_is_deferred:
  "build pf (Ternary (Number c) (Number a) (Number b)) =
     Ok (Expression (Conditional (Cnst c) (Cnst a) (Cnst b))) \<and>
   eager pf (Ternary (Number c) (Number a) (Number b)) = Ok (if truthy c then a else b)"
  by (simp add: create_conditional_expr_eq)

theorem ternary_of_constants_is_deferred_witness:
  "build example_platform
     (Ternary (Number 0x3FF0000000000000) (Number 0x4000000000000000) (Number 0x4008000000000000)) =
     Ok (Expression (Conditional (Cnst 0x3FF0000000000000) (Cnst 0x4000000000000000)
                       (Cnst 0x4008000000000000))) \<and>
   eager example_platform
     (Ternary (Number 0x3FF0000000000000) (Number 0x4000000000000000) (Number 0x4008000000000000)) =
     Ok 0x4000000000000000"
  using ternary_of_constants_is_deferred
    [of example_platform "0x3FF0000000000000" "0x4000000000000000" "0x4008000000000000"]
  by (simp add: truthy_def magnitude_def)

text \<open>
  Claim C4, as amended.  The compiled \<^verbatim>\<open>&&\<close> and \<^verbatim>\<open>||\<close> evaluate both operands
  (\<open>node_eval_binary\<close>), so an operand that reads \<^verbatim>\<open>unique\<close> advances the counter also
  where a short-circuiting evaluator would skip it.  For an expression in which no right
  operand of \<^verbatim>\<open>&&\<close> or \<^verbatim>\<open>||\<close> contains \<^verbatim>\<open>unique\<close>, whenever the evaluation of the compiled
  expression succeeds, the short-circuiting evaluator returns the same value and the same
  state; \<^verbatim>\<open>&&\<close> returns the right operand's value if both operands are truthy and 0
  otherwise, \<^verbatim>\<open>||\<close> the first truthy operand's value and 0 otherwise.
\<close>

theorem logical_operators_agree_with_short_circuit:
  assumes "unique_free_rhs x" and "build pf x = Ok n" and "node_eval pf n e = Ok (v, e')"
  shows "short_circuit_eval pf x e = Ok (v, e') \<and>
         apply_binary_op pf tk_and a b = Ok (if truthy a \<and> truthy b then b else d_zero) \<and>
         apply_binary_op pf tk_or a b = Ok (if truthy a then a else if truthy b then b else d_zero)"
  using compiled_refines_short_circuit [OF assms] by (simp add: apply_and apply_or)

theorem logical_operators_agree_with_short_circuit_witness:
  "short_circuit_eval example_platform
     (BinaryOp tk_or (BinaryOp tk_and Unique (Number 0x4008000000000000)) (Number 0x4014000000000000))
     (new_engine example_turtle)
   = Ok (0x4008000000000000, (new_engine example_turtle)\<lparr>m_next_unique_num := 2\<rparr>)"
proof -
  let ?x = "BinaryOp tk_or (BinaryOp tk_and Unique (Number 0x4008000000000000))
              (Number 0x4014000000000000)"
  let ?n = "Expression (BinaryOpExprCnst tk_or
              (BinaryOpExprCnst tk_and UniqueValExpr 0x4008000000000000) 0x4014000000000000)"
  have 1: "unique_free_rhs ?x" by simp
  have 2: "build example_platform ?x = Ok ?n"
    by (simp add: create_binary_op_expr_def get_binary_operator_factory_def is_constexpr_def
        get_constant_def get_expression_def MakeBinaryOp_create_Expr_double_def
        compile_unique_val_expr_def)
  have 3: "node_eval example_platform ?n (new_engine example_turtle)
             = Ok (0x4008000000000000, (new_engine example_turtle)\<lparr>m_next_unique_num := 2\<rparr>)"
    by (simp add: apply_and apply_or new_engine_def double_of_int_eval truthy_def magnitude_def)
  from logical_operators_agree_with_short_circuit [OF 1 2 3] show ?thesis by simp
qed

text \<open>
  Claim C4, as stated, fails for \<^verbatim>\<open>0 && unique\<close>: the compiled expression returns 0 and
  advances the counter from 1 to 2, the short-circuiting evaluator returns 0 and leaves the
  counter at 1.  Only one operand has an effect, so the order in which the compiler
  evaluates the operands does not matter here.
\<close>

theorem short_circuit_counterexample:
  "build example_platform (BinaryOp tk_and (Number 0) Unique)
     = Ok (Expression (BinaryOpCnstExpr tk_and 0 UniqueValExpr)) \<and>
   node_eval example_platform (Expression (BinaryOpCnstExpr tk_and 0 UniqueValExpr))
       (new_engine example_turtle)
     = Ok (0, (new_engine example_turtle)\<lparr>m_next_unique_num := 2\<rparr>) \<and>
   short_circuit_eval example_platform (BinaryOp tk_and (Number 0) Unique) (new_engine example_turtle)
     = Ok (0, new_engine example_turtle) \<and>
   (new_engine example_turtle)\<lparr>m_next_unique_num := 2\<rparr> \<noteq> new_engine example_turtle"
  by (simp add: apply_and create_binary_op_expr_def get_binary_operator_factory_def
      is_constexpr_def get_constant_def get_expression_def MakeBinaryOp_create_double_Expr_def
      compile_unique_val_expr_def truthy_def magnitude_def d_zero_def new_engine_def)

subsection \<open>Frames are pushed and popped in pairs\<close>

lemma frame_shape_update [simp]:
  "frame_shape (e\<lparr>m_next_unique_num := c\<rparr>) = frame_shape e"
  "frame_shape (e\<lparr>m_turtle := t\<rparr>) = frame_shape e"
  "frame_shape (e\<lparr>m_pen_height_became_negative := b\<rparr>) = frame_shape e"
  "frame_shape (e\<lparr>m_is_executing := b\<rparr>) = frame_shape e"
  by (simp_all add: frame_shape_def)

lemma frame_shape_push [simp]:
  "frame_shape (e\<lparr>m_engine_stack := stack_push v (m_engine_stack e)\<rparr>) = frame_shape e"
  "frame_shape (e\<lparr>m_engine_stack := push_capture v (m_engine_stack e)\<rparr>) = frame_shape e"
  by (simp_all add: frame_shape_def stack_push_def push_capture_def push_def)

lemma push_to_shape: "push_to dest v e = Ok e' \<Longrightarrow> frame_shape e' = frame_shape e"
  by (cases dest) (auto simp: push_to_def)

lemma call_shape: "call pf ex e = Ok (v, e') \<Longrightarrow> frame_shape e' = frame_shape e"
  by (auto dest: call_only_counter(1))

lemma copy_stack_from_shape:
  "copy_stack_from source dest i k e = Ok e' \<Longrightarrow> frame_shape e' = frame_shape e"
proof (induction k arbitrary: i e)
  case 0
  then show ?case by simp
next
  case (Suc k)
  then show ?case by (auto dest!: push_to_shape)
qed

lemma exec_start_fn_call_shape:
  "exec_start_fn_call cs dest self lam idx e = Ok e' \<Longrightarrow> frame_shape e' = frame_shape e"
  by (auto simp: exec_start_fn_call_def split: if_splits dest!: push_to_shape)

lemma exec_each_shape:
  assumes run: "\<And>stmt e e'. run stmt e = Ok e' \<Longrightarrow> frame_shape e' = frame_shape e"
  shows "exec_each run stmts e = Ok e' \<Longrightarrow> frame_shape e' = frame_shape e"
proof (induction stmts arbitrary: e)
  case Nil
  then show ?case by simp
next
  case (Cons stmt rest)
  then obtain e1 where 1: "exec_statement run stmt e = Ok e1" "exec_each run rest e1 = Ok e'"
    by auto
  from 1(1) have "frame_shape e1 = frame_shape e"
    by (auto simp: exec_statement_def split: if_splits dest!: run)
  with Cons.IH [OF 1(2)] show ?case by simp
qed

lemma exec_statements_shape:
  assumes run: "\<And>stmt e e'. run stmt e = Ok e' \<Longrightarrow> frame_shape e' = frame_shape e"
    and ex: "exec_statements run stmts e = Ok e'"
  shows "frame_shape e' = frame_shape e"
proof -
  from ex have "exec_each run stmts e = Ok e'"
    by (auto simp: exec_statements_def split: if_splits)
  with run show ?thesis by (rule exec_each_shape)
qed

lemma pop_shape:
  "pop n fs = Ok fs' \<Longrightarrow> m_frames fs' = m_frames fs \<and> m_frame_start fs' = m_frame_start fs"
  by (auto simp: pop_def split: if_splits)

lemma stack_pop_shape:
  "with_stack (stack_pop sz) e = Ok e' \<Longrightarrow> frame_shape e' = frame_shape e"
  by (auto simp: with_stack_def stack_pop_def frame_shape_def dest!: pop_shape)

lemma push_frame_shape:
  "push_frame a p fs = Ok fs' \<Longrightarrow> m_frames fs' = m_frames fs @ [m_frame_start fs]"
  by (auto simp: push_frame_def Let_def split: if_splits)

lemma pop_frame_shape:
  "pop_frame fs = Ok (n, fs') \<Longrightarrow> m_frames fs = fr @ [s] \<Longrightarrow>
     m_frames fs' = fr \<and> m_frame_start fs' = s \<and> length (m_stack fs') = m_frame_start fs"
  by (auto simp: pop_frame_def get_frame_size_def pop_def Let_def split: if_splits)

lemma exec_fn_body_shape:
  assumes run: "\<And>stmt e e'. run stmt e = Ok e' \<Longrightarrow> frame_shape e' = frame_shape e"
    and body: "exec_fn_body run args p h stmts e = Ok e'"
  shows "frame_shape e' = frame_shape e"
proof -
  from body obtain e1 e2 e3 where
    1: "with_stack (stack_push_frame \<lparr>locals = locals args, captures = 0\<rparr>
                                     \<lparr>locals = p, captures = 0\<rparr>) e = Ok e1"
    and 2: "exec_statements run stmts e1 = Ok e2"
    and 3: "with_stack (\<lambda>st. and_then (stack_pop_frame st) (\<lambda>(sz, st1). Ok st1)) e2 = Ok e3"
    and 4: "with_stack (stack_pop \<lparr>locals = (if h then 1 else 0), captures = captures args\<rparr>) e3 = Ok e'"
    by (auto simp: exec_fn_body_def)
  from 1 have s1: "frame_shape e1 =
      ((m_frames (m_locals (m_engine_stack e)) @ [m_frame_start (m_locals (m_engine_stack e))],
        m_frame_start (m_locals (m_engine_stack e1))),
       (m_frames (m_captures (m_engine_stack e)) @ [m_frame_start (m_captures (m_engine_stack e))],
        m_frame_start (m_captures (m_engine_stack e1))))"
    by (auto simp: with_stack_def stack_push_frame_def frame_shape_def dest!: push_frame_shape)
  from run 2 have s2: "frame_shape e2 = frame_shape e1" by (rule exec_statements_shape)
  from 3 s1 s2 have "frame_shape e3 = frame_shape e"
    by (auto simp: with_stack_def stack_pop_frame_def frame_shape_def dest!: pop_frame_shape)
  with stack_pop_shape [OF 4] show ?thesis by simp
qed


lemma exec_call_fn_shape:
  assumes run: "\<And>stmt e e'. run stmt e = Ok e' \<Longrightarrow> frame_shape e' = frame_shape e"
    and ex: "exec_call_fn run cs idx args e = Ok e'"
  shows "frame_shape e' = frame_shape e"
proof -
  from ex obtain c :: Chunk where "exec_fn_body run args (params_size (info_f c))
      (is_closure_info (info_f c)) (statements c) e = Ok e'"
    by (auto simp: exec_call_fn_def split: if_splits)
  with run show ?thesis by (rule exec_fn_body_shape)
qed

lemma exec_call_lambda_shape:
  assumes run: "\<And>stmt e e'. run stmt e = Ok e' \<Longrightarrow> frame_shape e' = frame_shape e"
    and ex: "exec_call_lambda run cs idx args e = Ok e'"
  shows "frame_shape e' = frame_shape e"
proof -
  from ex obtain c :: Chunk where
    "exec_fn_body run args (params_size (info_f c)) True (statements c) e = Ok e'"
    by (auto simp: exec_call_lambda_def split: if_splits)
  with run show ?thesis by (rule exec_fn_body_shape)
qed

lemma exec_call_local_block_shape:
  assumes run: "\<And>stmt e e'. run stmt e = Ok e' \<Longrightarrow> frame_shape e' = frame_shape e"
    and ex: "exec_call_local_block run cs idx e = Ok e'"
  shows "frame_shape e' = frame_shape e"
proof -
  from ex obtain c :: Chunk and e1 where 1: "exec_statements run (statements c) e = Ok e1"
    and 2: "with_stack (stack_pop (get_unwind_size (info_b c))) e1 = Ok e'"
    by (auto simp: exec_call_local_block_def split: if_splits)
  from run 1 have "frame_shape e1 = frame_shape e" by (rule exec_statements_shape)
  with stack_pop_shape [OF 2] show ?thesis by simp
qed

lemma loop_round_shape:
  assumes body: "\<And>e e'. body e = Ok e' \<Longrightarrow> frame_shape e' = frame_shape e"
    and ex: "loop_round body named s e = Ok e'"
  shows "frame_shape e' = frame_shape e"
  using ex by (auto simp: loop_round_def split: if_splits dest!: body)

lemma count_loop_shape:
  assumes body: "\<And>e e'. body e = Ok e' \<Longrightarrow> frame_shape e' = frame_shape e"
  shows "count_loop body named i k e = Ok e' \<Longrightarrow> frame_shape e' = frame_shape e"
proof (induction k arbitrary: i e)
  case 0
  then show ?case by simp
next
  case (Suc k)
  then obtain e1 where 1: "loop_round body named (double_of_int i) e = Ok e1"
    and 2: "count_loop body named (i + 1) k e1 = Ok e'" by auto
  from body 1 have "frame_shape e1 = frame_shape e" by (rule loop_round_shape)
  with Suc.IH [OF 2] show ?case by simp
qed

lemma up_loop_shape:
  assumes body: "\<And>e e'. body e = Ok e' \<Longrightarrow> frame_shape e' = frame_shape e"
  shows "up_loop fuel add body named s inc en e = Ok e' \<Longrightarrow> frame_shape e' = frame_shape e"
proof (induction fuel arbitrary: s e)
  case 0
  then show ?case by (auto split: if_splits)
next
  case (Suc fuel)
  show ?case
  proof (cases "d_le s en")
    case True
    with Suc.prems obtain e1 where 1: "loop_round body named s e = Ok e1"
      and 2: "up_loop fuel add body named (add s inc) inc en e1 = Ok e'" by auto
    from body 1 have "frame_shape e1 = frame_shape e" by (rule loop_round_shape)
    with Suc.IH [OF 2] show ?thesis by simp
  next
    case False
    with Suc.prems show ?thesis by simp
  qed
qed

lemma down_loop_shape:
  assumes body: "\<And>e e'. body e = Ok e' \<Longrightarrow> frame_shape e' = frame_shape e"
  shows "down_loop fuel sub body named s inc en e = Ok e' \<Longrightarrow> frame_shape e' = frame_shape e"
proof (induction fuel arbitrary: s e)
  case 0
  then show ?case by (auto split: if_splits)
next
  case (Suc fuel)
  show ?case
  proof (cases "d_le en s")
    case True
    with Suc.prems obtain e1 where 1: "loop_round body named s e = Ok e1"
      and 2: "down_loop fuel sub body named (sub s inc) inc en e1 = Ok e'" by auto
    from body 1 have "frame_shape e1 = frame_shape e" by (rule loop_round_shape)
    with Suc.IH [OF 2] show ?thesis by simp
  next
    case False
    with Suc.prems show ?thesis by simp
  qed
qed

lemma eval_in_order_shape:
  "eval_in_order pf args e = Ok (vs, e') \<Longrightarrow> frame_shape e' = frame_shape e"
proof (induction args arbitrary: e vs)
  case Nil
  then show ?case by simp
next
  case (Cons a args)
  then show ?case by (fastforce dest!: call_shape)
qed

lemma eval_args_shape:
  "eval_args pf args e = Ok (vs, e') \<Longrightarrow> frame_shape e' = frame_shape e"
  by (auto simp: eval_args_def split: if_splits dest!: eval_in_order_shape)


lemma invoke_shape:
  "invoke fuel pf cs stmt e = Ok e' \<Longrightarrow> frame_shape e' = frame_shape e"
proof (induction fuel arbitrary: stmt e e')
  case 0
  then show ?case by simp
next
  case (Suc fuel)
  have run: "\<And>stmt e e'. invoke fuel pf cs stmt e = Ok e' \<Longrightarrow> frame_shape e' = frame_shape e"
    by (rule Suc.IH)
  have block: "\<And>idx e e'. exec_call_local_block (invoke fuel pf cs) cs idx e = Ok e'
      \<Longrightarrow> frame_shape e' = frame_shape e"
  proof -
    fix idx e e' assume "exec_call_local_block (invoke fuel pf cs) cs idx e = Ok e'"
    with run show "frame_shape e' = frame_shape e" by (rule exec_call_local_block_shape)
  qed
  show ?case
  proof (cases stmt)
    case (PushValue dest ex)
    with Suc.prems show ?thesis by (auto dest!: call_shape push_to_shape)
  next
    case (PushConstant dest val)
    with Suc.prems show ?thesis by (auto dest!: push_to_shape)
  next
    case (CopyStack source dest offset sz)
    with Suc.prems show ?thesis by (auto simp: copy_stack_def dest!: copy_stack_from_shape)
  next
    case (StartFnCall dest self lam idx)
    with Suc.prems show ?thesis by (auto dest!: exec_start_fn_call_shape)
  next
    case (CallFn idx args)
    with Suc.prems have "exec_call_fn (invoke fuel pf cs) cs idx args e = Ok e'" by simp
    with run show ?thesis by (rule exec_call_fn_shape)
  next
    case (StartLambdaCall source offset)
    with Suc.prems show ?thesis by (auto split: if_splits)
  next
    case (CallLambdaFn source offset args)
    with Suc.prems obtain i where "exec_call_lambda (invoke fuel pf cs) cs i args e = Ok e'"
      by (auto split: if_splits)
    with run show ?thesis by (rule exec_call_lambda_shape)
  next
    case (IfStatement condition if_body else_body)
    with Suc.prems show ?thesis
      by (auto split: if_splits dest!: call_shape block)
  next
    case (ForCount start_expr block_index named)
    with Suc.prems obtain s e1 count where 1: "call pf start_expr e = Ok (s, e1)"
      and 2: "count_loop (exec_call_local_block (invoke fuel pf cs) cs block_index) named 0
                (nat count) e1 = Ok e'"
      by (auto split: option.splits)
    have blk: "\<And>e e'. exec_call_local_block (invoke fuel pf cs) cs block_index e = Ok e'
        \<Longrightarrow> frame_shape e' = frame_shape e"
      by (rule block)
    from blk 2 have "frame_shape e' = frame_shape e1" by (rule count_loop_shape)
    with call_shape [OF 1] show ?thesis by simp
  next
    case (ForRange start_expr end_expr block_index named)
    with Suc.prems obtain s e1 en e2 where 1: "call pf start_expr e = Ok (s, e1)"
      and 2: "call pf end_expr e1 = Ok (en, e2)"
      and 3: "(if d_le s en
               then up_loop fuel (fp_add pf)
                      (exec_call_local_block (invoke fuel pf cs) cs block_index) named s d_one en e2
               else down_loop fuel (fp_sub pf)
                      (exec_call_local_block (invoke fuel pf cs) cs block_index) named s d_one en e2)
              = Ok e'"
      by auto
    have blk: "\<And>e e'. exec_call_local_block (invoke fuel pf cs) cs block_index e = Ok e'
        \<Longrightarrow> frame_shape e' = frame_shape e"
      by (rule block)
    have "frame_shape e' = frame_shape e2"
    proof (cases "d_le s en")
      case True
      with 3 have "up_loop fuel (fp_add pf)
          (exec_call_local_block (invoke fuel pf cs) cs block_index) named s d_one en e2 = Ok e'"
        by simp
      with blk show ?thesis by (rule up_loop_shape)
    next
      case False
      with 3 have "down_loop fuel (fp_sub pf)
          (exec_call_local_block (invoke fuel pf cs) cs block_index) named s d_one en e2 = Ok e'"
        by simp
      with blk show ?thesis by (rule down_loop_shape)
    qed
    with call_shape [OF 1] call_shape [OF 2] show ?thesis by simp
  next
    case (ForStep start_expr step_expr end_expr block_index named)
    with Suc.prems obtain s e1 inc e2 en e3 where 1: "call pf start_expr e = Ok (s, e1)"
      and 2: "call pf step_expr e1 = Ok (inc, e2)"
      and 3: "call pf end_expr e2 = Ok (en, e3)"
      and 4: "(if d_le s en
               then up_loop fuel (fp_add pf)
                      (exec_call_local_block (invoke fuel pf cs) cs block_index) named s inc en e3
               else down_loop fuel (fp_sub pf)
                      (exec_call_local_block (invoke fuel pf cs) cs block_index) named s
                      (if d_lt inc d_zero then d_neg inc else inc) en e3)
              = Ok e'"
      by auto
    have blk: "\<And>e e'. exec_call_local_block (invoke fuel pf cs) cs block_index e = Ok e'
        \<Longrightarrow> frame_shape e' = frame_shape e"
      by (rule block)
    have "frame_shape e' = frame_shape e3"
    proof (cases "d_le s en")
      case True
      with 4 have "up_loop fuel (fp_add pf)
          (exec_call_local_block (invoke fuel pf cs) cs block_index) named s inc en e3 = Ok e'"
        by simp
      with blk show ?thesis by (rule up_loop_shape)
    next
      case False
      with 4 have "down_loop fuel (fp_sub pf)
          (exec_call_local_block (invoke fuel pf cs) cs block_index) named s
          (if d_lt inc d_zero then d_neg inc else inc) en e3 = Ok e'"
        by simp
      with blk show ?thesis by (rule down_loop_shape)
    qed
    with call_shape [OF 1] call_shape [OF 2] call_shape [OF 3] show ?thesis by simp
  next
    case BreakpointStatement
    with Suc.prems show ?thesis by simp
  next
    case (TurtleFn fn args)
    with Suc.prems show ?thesis by (auto dest!: eval_args_shape)
  qed
qed


lemma push_frame_start:
  "push_frame a p fs = Ok fs' \<Longrightarrow>
     int (m_frame_start fs') = int (length (m_stack fs)) - a \<and> 0 \<le> a"
  by (auto simp: push_frame_def Let_def split: if_splits)

lemma pop_length:
  "pop n fs = Ok fs' \<Longrightarrow> int (length (m_stack fs')) = int (length (m_stack fs)) - n"
  by (auto simp: pop_def split: if_splits)

lemma exec_fn_body_lengths:
  assumes run: "\<And>stmt e e'. run stmt e = Ok e' \<Longrightarrow> frame_shape e' = frame_shape e"
    and body: "exec_fn_body run args p h stmts e = Ok e'"
  shows "int (length (m_stack (m_locals (m_engine_stack e')))) =
           int (length (m_stack (m_locals (m_engine_stack e)))) - locals args - (if h then 1 else 0) \<and>
         int (length (m_stack (m_captures (m_engine_stack e')))) =
           int (length (m_stack (m_captures (m_engine_stack e)))) - captures args"
proof -
  from body obtain e1 e2 e3 where
    1: "with_stack (stack_push_frame \<lparr>locals = locals args, captures = 0\<rparr>
                                     \<lparr>locals = p, captures = 0\<rparr>) e = Ok e1"
    and 2: "exec_statements run stmts e1 = Ok e2"
    and 3: "with_stack (\<lambda>st. and_then (stack_pop_frame st) (\<lambda>(sz, st1). Ok st1)) e2 = Ok e3"
    and 4: "with_stack (stack_pop \<lparr>locals = (if h then 1 else 0), captures = captures args\<rparr>) e3 = Ok e'"
    by (auto simp: exec_fn_body_def)
  from 1 have s1: "frame_shape e1 =
      ((m_frames (m_locals (m_engine_stack e)) @ [m_frame_start (m_locals (m_engine_stack e))],
        m_frame_start (m_locals (m_engine_stack e1))),
       (m_frames (m_captures (m_engine_stack e)) @ [m_frame_start (m_captures (m_engine_stack e))],
        m_frame_start (m_captures (m_engine_stack e1))))"
    by (auto simp: with_stack_def stack_push_frame_def frame_shape_def dest!: push_frame_shape)
  from 1 have st1: "int (m_frame_start (m_locals (m_engine_stack e1))) =
        int (length (m_stack (m_locals (m_engine_stack e)))) - locals args"
      "int (m_frame_start (m_captures (m_engine_stack e1))) =
        int (length (m_stack (m_captures (m_engine_stack e))))"
    by (auto simp: with_stack_def stack_push_frame_def dest!: push_frame_start)
  from run 2 have s2: "frame_shape e2 = frame_shape e1" by (rule exec_statements_shape)
  from 3 s1 s2 have l3: "length (m_stack (m_locals (m_engine_stack e3))) =
        m_frame_start (m_locals (m_engine_stack e1))"
      "length (m_stack (m_captures (m_engine_stack e3))) =
        m_frame_start (m_captures (m_engine_stack e1))"
    by (auto simp: with_stack_def stack_pop_frame_def frame_shape_def dest!: pop_frame_shape)
  from 4 have "int (length (m_stack (m_locals (m_engine_stack e')))) =
        int (length (m_stack (m_locals (m_engine_stack e3)))) - (if h then 1 else 0)"
      "int (length (m_stack (m_captures (m_engine_stack e')))) =
        int (length (m_stack (m_captures (m_engine_stack e3)))) - captures args"
    by (auto simp: with_stack_def stack_pop_def dest!: pop_length)
  with l3 st1 show ?thesis by simp
qed

lemma exec_call_fn_lengths:
  assumes run: "\<And>stmt e e'. run stmt e = Ok e' \<Longrightarrow> frame_shape e' = frame_shape e"
    and ex: "exec_call_fn run cs idx args e = Ok e'"
  shows "\<exists>h. int (length (m_stack (m_locals (m_engine_stack e')))) =
           int (length (m_stack (m_locals (m_engine_stack e)))) - locals args - (if h then 1 else 0) \<and>
         int (length (m_stack (m_captures (m_engine_stack e')))) =
           int (length (m_stack (m_captures (m_engine_stack e)))) - captures args"
proof -
  from ex obtain c :: Chunk where "exec_fn_body run args (params_size (info_f c))
      (is_closure_info (info_f c)) (statements c) e = Ok e'"
    by (auto simp: exec_call_fn_def split: if_splits)
  with run have "int (length (m_stack (m_locals (m_engine_stack e')))) =
           int (length (m_stack (m_locals (m_engine_stack e)))) - locals args
             - (if is_closure_info (info_f c) then 1 else 0) \<and>
         int (length (m_stack (m_captures (m_engine_stack e')))) =
           int (length (m_stack (m_captures (m_engine_stack e)))) - captures args"
    by (rule exec_fn_body_lengths)
  then show ?thesis by (rule exI)
qed

lemma execute_main_balanced:
  assumes "execute_main fuel pf cs no_chunk chunk_index e = Ok e'"
  shows "stack_get_stack_size (m_engine_stack e') = \<lparr>locals = 0, captures = 0\<rparr>"
proof -
  let ?e2 = "e\<lparr>m_engine_stack := stack_reset, m_is_executing := True\<rparr>"
  from assms obtain e3 where 3: "exec_call_fn (invoke fuel pf cs) cs chunk_index
      \<lparr>locals = 0, captures = 0\<rparr> ?e2 = Ok e3"
    and e': "e' = e3\<lparr>m_turtle := turtle_finish pf (m_turtle e3)\<rparr>"
    by (auto simp: execute_main_def Let_def split: if_splits)
  have run: "\<And>stmt e e'. invoke fuel pf cs stmt e = Ok e' \<Longrightarrow> frame_shape e' = frame_shape e"
    by (rule invoke_shape)
  from run 3 have "\<exists>h. int (length (m_stack (m_locals (m_engine_stack e3)))) =
           int (length (m_stack (m_locals (m_engine_stack ?e2)))) - locals \<lparr>locals = 0, captures = 0\<rparr>
             - (if h then 1 else 0) \<and>
         int (length (m_stack (m_captures (m_engine_stack e3)))) =
           int (length (m_stack (m_captures (m_engine_stack ?e2)))) - captures \<lparr>locals = 0, captures = 0\<rparr>"
    by (rule exec_call_fn_lengths)
  then have "length (m_stack (m_locals (m_engine_stack e3))) = 0 \<and>
      length (m_stack (m_captures (m_engine_stack e3))) = 0"
    by (auto simp: stack_reset_def reset_def split: if_splits)
  with e' show ?thesis
    by (simp add: stack_get_stack_size_def get_stack_size_def)
qed

lemma execute_main_resets:
  assumes "execute_main fuel pf cs no_chunk chunk_index e = Ok e'"
  shows "m_engine_stack e' = stack_reset"
proof -
  let ?e2 = "e\<lparr>m_engine_stack := stack_reset, m_is_executing := True\<rparr>"
  from assms obtain e3 where 3: "exec_call_fn (invoke fuel pf cs) cs chunk_index
      \<lparr>locals = 0, captures = 0\<rparr> ?e2 = Ok e3"
    and e': "e' = e3\<lparr>m_turtle := turtle_finish pf (m_turtle e3)\<rparr>"
    by (auto simp: execute_main_def Let_def split: if_splits)
  have run: "\<And>stmt e e'. invoke fuel pf cs stmt e = Ok e' \<Longrightarrow> frame_shape e' = frame_shape e"
    by (rule invoke_shape)
  from run 3 have "frame_shape e3 = frame_shape ?e2" by (rule exec_call_fn_shape)
  then have shape: "frame_shape e3 = (([], 0), ([], 0))"
    by (simp add: frame_shape_def stack_reset_def reset_def)
  from assms have "stack_get_stack_size (m_engine_stack e') = \<lparr>locals = 0, captures = 0\<rparr>"
    by (rule execute_main_balanced)
  with e' have "m_stack (m_locals (m_engine_stack e3)) = []"
    and "m_stack (m_captures (m_engine_stack e3)) = []"
    by (simp_all add: stack_get_stack_size_def get_stack_size_def)
  with shape e' show ?thesis
    by (simp add: frame_shape_def stack_reset_def reset_def)
qed

subsection \<open>Loops\<close>

lemma upt_0_Suc_map: "map f [0..<Suc k] = f 0 # map (\<lambda>i. f (Suc i)) [0..<k]"
  by (simp add: upt_conv_Cons map_Suc_upt [symmetric] del: upt_Suc)

lemma funpow_shift: "((\<lambda>v. g v c) ^^ Suc i) s = ((\<lambda>v. g v c) ^^ i) (g s c)"
  using funpow_swap1 [of "\<lambda>v. g v c" i s] by simp

lemma up_loop_rounds:
  assumes "\<forall>i<k. d_le (((\<lambda>v. add v inc) ^^ i) s) en"
    and "\<not> d_le (((\<lambda>v. add v inc) ^^ k) s) en"
    and "k \<le> fuel"
  shows "up_loop fuel add body named s inc en e =
           run_rounds body named (map (\<lambda>i. ((\<lambda>v. add v inc) ^^ i) s) [0..<k]) e"
  using assms
proof (induction k arbitrary: fuel s e)
  case 0
  then show ?case by (cases fuel) simp_all
next
  case (Suc k)
  from Suc.prems(3) obtain fuel' where fuel: "fuel = Suc fuel'" "k \<le> fuel'"
    by (cases fuel) auto
  from Suc.prems(1) have s: "d_le s en" by force
  have 1: "\<forall>i<k. d_le (((\<lambda>v. add v inc) ^^ i) (add s inc)) en"
  proof (intro allI impI)
    fix i assume "i < k"
    then have "Suc i < Suc k" by simp
    with Suc.prems(1) have "d_le (((\<lambda>v. add v inc) ^^ Suc i) s) en" by blast
    then show "d_le (((\<lambda>v. add v inc) ^^ i) (add s inc)) en"
      by (simp add: funpow_shift del: funpow.simps)
  qed
  have 2: "\<not> d_le (((\<lambda>v. add v inc) ^^ k) (add s inc)) en"
    using Suc.prems(2) by (simp add: funpow_shift del: funpow.simps)
  have ih: "\<And>e. up_loop fuel' add body named (add s inc) inc en e =
      run_rounds body named (map (\<lambda>i. ((\<lambda>v. add v inc) ^^ i) (add s inc)) [0..<k]) e"
    by (rule Suc.IH [OF 1 2 fuel(2)])
  then have ihf: "up_loop fuel' add body named (add s inc) inc en =
      run_rounds body named (map (\<lambda>i. ((\<lambda>v. add v inc) ^^ i) (add s inc)) [0..<k])"
    by (rule ext)
  show ?case
    unfolding fuel upt_0_Suc_map
    using s by (simp add: ihf funpow_shift del: funpow.simps)
qed


lemma down_loop_rounds:
  assumes "\<forall>i<k. d_le en (((\<lambda>v. sub v inc) ^^ i) s)"
    and "\<not> d_le en (((\<lambda>v. sub v inc) ^^ k) s)"
    and "k \<le> fuel"
  shows "down_loop fuel sub body named s inc en e =
           run_rounds body named (map (\<lambda>i. ((\<lambda>v. sub v inc) ^^ i) s) [0..<k]) e"
  using assms
proof (induction k arbitrary: fuel s e)
  case 0
  then show ?case by (cases fuel) simp_all
next
  case (Suc k)
  from Suc.prems(3) obtain fuel' where fuel: "fuel = Suc fuel'" "k \<le> fuel'"
    by (cases fuel) auto
  from Suc.prems(1) have s: "d_le en s" by force
  have 1: "\<forall>i<k. d_le en (((\<lambda>v. sub v inc) ^^ i) (sub s inc))"
  proof (intro allI impI)
    fix i assume "i < k"
    then have "Suc i < Suc k" by simp
    with Suc.prems(1) have "d_le en (((\<lambda>v. sub v inc) ^^ Suc i) s)" by blast
    then show "d_le en (((\<lambda>v. sub v inc) ^^ i) (sub s inc))"
      by (simp add: funpow_shift del: funpow.simps)
  qed
  have 2: "\<not> d_le en (((\<lambda>v. sub v inc) ^^ k) (sub s inc))"
    using Suc.prems(2) by (simp add: funpow_shift del: funpow.simps)
  have "\<And>e. down_loop fuel' sub body named (sub s inc) inc en e =
      run_rounds body named (map (\<lambda>i. ((\<lambda>v. sub v inc) ^^ i) (sub s inc)) [0..<k]) e"
    by (rule Suc.IH [OF 1 2 fuel(2)])
  then have ihf: "down_loop fuel' sub body named (sub s inc) inc en =
      run_rounds body named (map (\<lambda>i. ((\<lambda>v. sub v inc) ^^ i) (sub s inc)) [0..<k])"
    by (rule ext)
  show ?case
    unfolding fuel upt_0_Suc_map
    using s by (simp add: ihf funpow_shift del: funpow.simps)
qed

lemma for_loop_rounds:
  assumes compiled: "compile_for_loop start_expr step_expr end_expr block_index named = Ok stmt"
    and range: "end_expr \<noteq> NullExpr"
    and s: "call pf start_expr e = Ok (s, e1)"
    and step: "if step_expr = NullExpr then step = d_one \<and> e2 = e1
               else call pf step_expr e1 = Ok (step, e2)"
    and en: "call pf end_expr e2 = Ok (en, e3)"
    and inside: "\<forall>i<k. in_range s en (loop_value pf s step en i)"
    and outside: "\<not> in_range s en (loop_value pf s step en k)"
    and fuel: "k \<le> fuel"
  shows "invoke (Suc fuel) pf cs stmt e =
           run_rounds (exec_call_local_block (invoke fuel pf cs) cs block_index) named
             (map (loop_value pf s step en) [0..<k]) e3"
proof -
  let ?body = "exec_call_local_block (invoke fuel pf cs) cs block_index"
  let ?rounds = "run_rounds ?body named (map (loop_value pf s step en) [0..<k]) e3"
  have loop: "(if d_le s en then up_loop fuel (fp_add pf) ?body named s step en e3
               else down_loop fuel (fp_sub pf) ?body named s (d_abs step) en e3) = ?rounds"
  proof (cases "d_le s en")
    case True
    from inside True have 1: "\<forall>i<k. d_le (((\<lambda>v. fp_add pf v step) ^^ i) s) en"
      by (simp add: in_range_def loop_value_def)
    from outside True have 2: "\<not> d_le (((\<lambda>v. fp_add pf v step) ^^ k) s) en"
      by (simp add: in_range_def loop_value_def)
    have lv: "loop_value pf s step en = (\<lambda>i. ((\<lambda>v. fp_add pf v step) ^^ i) s)"
      using True by (auto simp: loop_value_def)
    from True show ?thesis
      by (simp add: lv up_loop_rounds [where add = "fp_add pf" and inc = step, OF 1 2 fuel])
  next
    case False
    from inside False have 1: "\<forall>i<k. d_le en (((\<lambda>v. fp_sub pf v (d_abs step)) ^^ i) s)"
      by (simp add: in_range_def loop_value_def)
    from outside False have 2: "\<not> d_le en (((\<lambda>v. fp_sub pf v (d_abs step)) ^^ k) s)"
      by (simp add: in_range_def loop_value_def)
    have lv: "loop_value pf s step en = (\<lambda>i. ((\<lambda>v. fp_sub pf v (d_abs step)) ^^ i) s)"
      using False by (auto simp: loop_value_def)
    from False show ?thesis
      by (simp add: lv
          down_loop_rounds [where sub = "fp_sub pf" and inc = "d_abs step", OF 1 2 fuel])
  qed
  show ?thesis
  proof (cases "step_expr = NullExpr")
    case True
    with step have one: "step = d_one" "e2 = e1" by simp_all
    have abs_one: "d_abs d_one = d_one"
      by (simp add: d_abs_def d_lt_def d_key_def d_one_def d_zero_def sign_mask_def magnitude_def
          is_nan_def)
    from True compiled range have "stmt = ForRange start_expr end_expr block_index named"
      by (auto simp: compile_for_loop_def split: if_splits)
    with s en loop show ?thesis
      unfolding one by (simp add: abs_one split: if_splits)
  next
    case False
    with step have st: "call pf step_expr e1 = Ok (step, e2)" by simp
    from False compiled range have "stmt = ForStep start_expr step_expr end_expr block_index named"
      by (auto simp: compile_for_loop_def split: if_splits)
    with s st en loop show ?thesis
      by (simp add: d_abs_def split: if_splits)
  qed
qed

text \<open>
  A loop whose values stay in range for more rounds than the fuel allows does not
  complete: the model never reports the completion of a loop that would still be running.
\<close>

lemma up_loop_not_done:
  assumes "\<forall>i\<le>fuel. d_le (((\<lambda>v. add v inc) ^^ i) s) en"
  shows "up_loop fuel add body named s inc en e \<noteq> Ok e'"
  using assms
proof (induction fuel arbitrary: s e)
  case 0
  then show ?case by simp
next
  case (Suc fuel)
  from Suc.prems have s: "d_le s en" by force
  have "\<forall>i\<le>fuel. d_le (((\<lambda>v. add v inc) ^^ i) (add s inc)) en"
  proof (intro allI impI)
    fix i assume "i \<le> fuel"
    then have "Suc i \<le> Suc fuel" by simp
    with Suc.prems have "d_le (((\<lambda>v. add v inc) ^^ Suc i) s) en" by blast
    then show "d_le (((\<lambda>v. add v inc) ^^ i) (add s inc)) en"
      by (simp add: funpow_shift del: funpow.simps)
  qed
  from Suc.IH [OF this] s show ?case by auto
qed

lemma down_loop_not_done:
  assumes "\<forall>i\<le>fuel. d_le en (((\<lambda>v. sub v inc) ^^ i) s)"
  shows "down_loop fuel sub body named s inc en e \<noteq> Ok e'"
  using assms
proof (induction fuel arbitrary: s e)
  case 0
  then show ?case by simp
next
  case (Suc fuel)
  from Suc.prems have s: "d_le en s" by force
  have "\<forall>i\<le>fuel. d_le en (((\<lambda>v. sub v inc) ^^ i) (sub s inc))"
  proof (intro allI impI)
    fix i assume "i \<le> fuel"
    then have "Suc i \<le> Suc fuel" by simp
    with Suc.prems have "d_le en (((\<lambda>v. sub v inc) ^^ Suc i) s)" by blast
    then show "d_le en (((\<lambda>v. sub v inc) ^^ i) (sub s inc))"
      by (simp add: funpow_shift del: funpow.simps)
  qed
  from Suc.IH [OF this] s show ?case by auto
qed

subsection \<open>The example program\<close>

lemmas engine_eval = exec_call_fn_def exec_call_lambda_def exec_fn_body_def
  exec_call_local_block_def exec_statements_def exec_statement_def with_stack_def
  stack_push_frame_def stack_pop_frame_def stack_pop_def stack_push_def push_capture_def
  push_frame_def pop_frame_def pop_def push_def at_offset_def read_global_def read_from_def
  get_frame_size_def get_stack_size_def check_stack_size_def infinite_recursion_limit_def
  get_chunk_def is_call_frame_def is_local_block_def is_closure_def is_closure_info_def
  get_unwind_size_def push_to_def exec_start_fn_call_def eval_args_def loop_round_def Let_def

lemma example_round:
  "loop_round (exec_call_local_block (invoke (Suc (Suc n)) pf example_chunks) example_chunks 3)
     True v (example_running calls) = Ok (example_running (calls @ [(''r'', [v])]))"
  by (simp add: engine_eval example_chunks_def example_running_def example_turtle_def
      record_call_def no_info_f_def no_info_b_def)


lemma example_sums:
  "fp_add example_platform 0x3FF0000000000000 0x4014000000000000 = 0x4018000000000000"
  "fp_add example_platform 0x4018000000000000 0x4014000000000000 = 0x4026000000000000"
  "fp_sub example_platform 0x4008000000000000 0x3FF0000000000000 = 0x4000000000000000"
  "fp_sub example_platform 0x4000000000000000 0x3FF0000000000000 = 0x3FF0000000000000"
  "fp_sub example_platform 0x3FF0000000000000 0x3FF0000000000000 = 0"
  by (simp_all add: example_platform_def whole_number_op_def int_of_double_eval double_of_int_eval)

lemma example_le: "d_le 0x3FF0000000000000 0x4024000000000000"
  by (simp add: double_compare_eval)

lemma example_loop_values:
  "loop_value example_platform 0x3FF0000000000000 0x4014000000000000 0x4024000000000000 0
     = 0x3FF0000000000000"
  "loop_value example_platform 0x3FF0000000000000 0x4014000000000000 0x4024000000000000 (Suc 0)
     = 0x4018000000000000"
  "loop_value example_platform 0x3FF0000000000000 0x4014000000000000 0x4024000000000000
     (Suc (Suc 0)) = 0x4026000000000000"
  by (simp_all add: loop_value_def example_sums example_le)

lemma example_in_range:
  "in_range 0x3FF0000000000000 0x4024000000000000 0x3FF0000000000000"
  "in_range 0x3FF0000000000000 0x4024000000000000 0x4018000000000000"
  "\<not> in_range 0x3FF0000000000000 0x4024000000000000 0x4026000000000000"
  by (simp_all add: in_range_def double_compare_eval)

lemma less_Suc_Suc_0: "i < Suc (Suc 0) \<longleftrightarrow> i = 0 \<or> i = Suc 0"
  by auto

lemma example_loop_run:
  "invoke (Suc (Suc (Suc n))) example_platform example_chunks example_loop (example_running []) =
     Ok (example_running [(''r'', [0x3FF0000000000000]), (''r'', [0x4018000000000000])])"
proof -
  have 1: "compile_for_loop (AccessConstant 0x3FF0000000000000) (AccessConstant 0x4014000000000000)
             (AccessConstant 0x4024000000000000) 3 True = Ok example_loop"
    by (simp add: compile_for_loop_def example_loop_def)
  have 2: "AccessConstant 0x4024000000000000 \<noteq> NullExpr" by simp
  have 3: "call example_platform (AccessConstant 0x3FF0000000000000) (example_running []) =
             Ok (0x3FF0000000000000, example_running [])" by simp
  have 4: "if AccessConstant 0x4014000000000000 = NullExpr
           then 0x4014000000000000 = d_one \<and> example_running [] = example_running []
           else call example_platform (AccessConstant 0x4014000000000000) (example_running []) =
                  Ok (0x4014000000000000, example_running [])" by simp
  have 5: "call example_platform (AccessConstant 0x4024000000000000) (example_running []) =
             Ok (0x4024000000000000, example_running [])" by simp
  have 6: "\<forall>i<Suc (Suc 0). in_range 0x3FF0000000000000 0x4024000000000000
             (loop_value example_platform 0x3FF0000000000000 0x4014000000000000 0x4024000000000000 i)"
    by (auto simp: less_Suc_Suc_0 example_loop_values example_in_range)
  have 7: "\<not> in_range 0x3FF0000000000000 0x4024000000000000
             (loop_value example_platform 0x3FF0000000000000 0x4014000000000000 0x4024000000000000
                (Suc (Suc 0)))"
    by (simp add: example_loop_values example_in_range)
  have 8: "Suc (Suc 0) \<le> Suc (Suc n)" by simp
  from for_loop_rounds [OF 1 2 3 4 5 6 7 8, of example_chunks] show ?thesis
    by (simp add: example_loop_values example_round)
qed


lemma example_main_run:
  "execute_main (Suc (Suc (Suc n))) example_platform example_chunks 0 2 (engine_with_stack_sizes 3 2) =
     Ok ((new_engine example_turtle)
           \<lparr>m_is_executing := True,
            m_turtle := example_turtle
              \<lparr>turtle_calls := [(''r'', [0x3FF0000000000000]), (''r'', [0x4018000000000000])]\<rparr>\<rparr>)"
proof -
  have start: "(engine_with_stack_sizes 3 2)
      \<lparr>m_engine_stack := \<lparr>m_locals = \<lparr>m_stack = [], m_frame_start = 0, m_frames = [0]\<rparr>,
                           m_captures = \<lparr>m_stack = [], m_frame_start = 0, m_frames = [0]\<rparr>\<rparr>,
       m_is_executing := True\<rparr> = example_running []"
    by (simp add: engine_with_stack_sizes_def new_engine_def example_running_def example_turtle_def)
  have main: "get_chunk example_chunks 2 =
      Ok \<lparr>chunk_type = function_chunk, info_f = no_info_f, info_b = no_info_b,
          statements = [example_loop]\<rparr>"
    by (simp add: get_chunk_def example_chunks_def)
  have pushed: "with_stack (stack_push_frame \<lparr>locals = 0, captures = 0\<rparr> \<lparr>locals = 0, captures = 0\<rparr>)
      ((engine_with_stack_sizes 3 2)\<lparr>m_engine_stack := stack_reset, m_is_executing := True\<rparr>) =
      Ok (example_running [])"
    by (simp add: with_stack_def stack_push_frame_def push_frame_def stack_reset_def reset_def
        Let_def start [symmetric])
  have stmts: "exec_statements (invoke (Suc (Suc (Suc n))) example_platform example_chunks)
      [example_loop] (example_running []) =
      Ok (example_running [(''r'', [0x3FF0000000000000]), (''r'', [0x4018000000000000])])"
    by (simp add: exec_statements_def exec_statement_def example_loop_run
        del: invoke.simps)
       (simp add: example_running_def example_turtle_def check_stack_size_def get_stack_size_def
          infinite_recursion_limit_def)
  show ?thesis
    by (simp add: execute_main_def exec_call_fn_def exec_fn_body_def main pushed stmts
        is_call_frame_def is_closure_info_def no_info_f_def Let_def)
       (simp add: example_running_def with_stack_def stack_pop_frame_def pop_frame_def pop_def
        get_frame_size_def stack_pop_def new_engine_def stack_reset_def reset_def
        example_platform_def example_turtle_def Let_def)
qed

subsection \<open>The counter of unique\<close>

lemma of_nat_word_of_int: "(of_nat k :: 32 word) = word_of_int (int k)"
  by simp
lemma sint_of_nat_small: "k < 2 ^ 31 \<Longrightarrow> sint (of_nat k :: 32 word) = int k"
  unfolding of_nat_word_of_int sint_sbintrunc'
  by (simp add: signed_take_bit_int_eq_self)

lemma eval_in_order_unique:
  "eval_in_order pf (replicate n UniqueValExpr) e =
     Ok (map (\<lambda>k. double_of_int (sint (m_next_unique_num e + of_nat k))) [0..<n],
         e\<lparr>m_next_unique_num := m_next_unique_num e + of_nat n\<rparr>)"
proof (induction n arbitrary: e)
  case 0
  then show ?case by simp
next
  case (Suc n)
  show ?case
    unfolding upt_0_Suc_map
    by (simp add: Suc.IH add.assoc del: upt_Suc)
qed

lemma unique_value_at_eq:
  "0 < k \<Longrightarrow> unique_value_at pf k e = Ok (double_of_int (sint (m_next_unique_num e + of_nat (k - 1))))"
  by (cases k) (simp_all add: unique_value_at_def compile_unique_val_expr_def eval_in_order_unique
      last_map del: upt_Suc replicate_Suc)

lemma unique_counts_up:
  assumes "0 < k" and "k < 2 ^ 31"
  shows "unique_value_at pf k (new_engine t) = Ok (double_of_int (int k))"
proof -
  from assms(1) have "(1 :: 32 word) + of_nat (k - 1) = of_nat k"
    by (cases k) simp_all
  with assms show ?thesis
    by (simp add: unique_value_at_eq new_engine_def sint_of_nat_small)
qed

lemma unique_overflow:
  "unique_value_at pf 2147483648 (new_engine t) = Ok 0xC1E0000000000000"
proof -
  have "(1 :: 32 word) + of_nat (2147483648 - 1) = 0x80000000" by simp
  moreover have "sint (0x80000000 :: 32 word) = - 2147483648" by simp
  moreover have "double_of_int (- 2147483648) = 0xC1E0000000000000"
    by (simp add: double_of_int_eval)
  ultimately show ?thesis
    by (simp add: unique_value_at_eq new_engine_def)
qed

subsection \<open>The claims about execution\<close>

text \<open>
  Claim C2.  A loop with an end expression, compiled by \<open>compile_for_loop\<close>, evaluates its
  start, step and end expressions once each, in this order (the step is 1 when there is
  no step expression).  If \<open>k\<close> values of the loop are in range and the next one is not, and
  the fuel allows \<open>k\<close> rounds, the statement does exactly what running the body once at
  each of the \<open>k\<close> values does, starting in the state the three evaluations left.  The
  values are those of \<open>loop_value\<close>: from \<open>s\<close> upwards by \<open>step\<close> while \<open>\<le> e\<close> if \<open>s \<le> e\<close>,
  otherwise from \<open>s\<close> downwards by \<open>|step|\<close> while \<open>\<ge> e\<close>.
\<close>

theorem for_loop_runs_at_values:
  assumes "compile_for_loop start_expr step_expr end_expr block_index named = Ok stmt"
    and "end_expr \<noteq> NullExpr"
    and "call pf start_expr e = Ok (s, e1)"
    and "if step_expr = NullExpr then step = d_one \<and> e2 = e1
         else call pf step_expr e1 = Ok (step, e2)"
    and "call pf end_expr e2 = Ok (en, e3)"
    and "\<forall>i<k. in_range s en (loop_value pf s step en i)"
    and "\<not> in_range s en (loop_value pf s step en k)"
    and "k \<le> fuel"
  shows "invoke (Suc fuel) pf m_chunks stmt e =
           run_rounds (exec_call_local_block (invoke fuel pf m_chunks) m_chunks block_index) named
             (map (loop_value pf s step en) [0..<k]) e3"
  using assms by (rule for_loop_rounds)

lemma example_down_values:
  "loop_value example_platform 0x4008000000000000 d_one 0x3FF0000000000000 0
     = 0x4008000000000000"
  "loop_value example_platform 0x4008000000000000 d_one 0x3FF0000000000000 (Suc 0)
     = 0x4000000000000000"
  "loop_value example_platform 0x4008000000000000 d_one 0x3FF0000000000000 (Suc (Suc 0))
     = 0x3FF0000000000000"
  "loop_value example_platform 0x4008000000000000 d_one 0x3FF0000000000000 (Suc (Suc (Suc 0)))
     = 0"
proof -
  have gt: "\<not> d_le 0x4008000000000000 0x3FF0000000000000"
    by (simp add: double_compare_eval)
  have abs_one: "d_abs d_one = 0x3FF0000000000000"
    by (simp add: d_abs_def d_neg_def double_compare_eval)
  note defs = loop_value_def gt abs_one example_sums
  show "loop_value example_platform 0x4008000000000000 d_one 0x3FF0000000000000 0
     = 0x4008000000000000" by (simp add: defs)
  show "loop_value example_platform 0x4008000000000000 d_one 0x3FF0000000000000 (Suc 0)
     = 0x4000000000000000" by (simp add: defs)
  show "loop_value example_platform 0x4008000000000000 d_one 0x3FF0000000000000 (Suc (Suc 0))
     = 0x3FF0000000000000" by (simp add: defs)
  show "loop_value example_platform 0x4008000000000000 d_one 0x3FF0000000000000 (Suc (Suc (Suc 0)))
     = 0" by (simp add: defs)
qed

lemma example_down_in_range:
  "in_range 0x4008000000000000 0x3FF0000000000000 0x4008000000000000"
  "in_range 0x4008000000000000 0x3FF0000000000000 0x4000000000000000"
  "in_range 0x4008000000000000 0x3FF0000000000000 0x3FF0000000000000"
  "\<not> in_range 0x4008000000000000 0x3FF0000000000000 0"
  by (simp_all add: in_range_def double_compare_eval)

lemma less_Suc_Suc_Suc_0: "i < Suc (Suc (Suc 0)) \<longleftrightarrow> i = 0 \<or> i = Suc 0 \<or> i = Suc (Suc 0)"
  by auto

theorem for_loop_runs_at_values_witness:
  "invoke (Suc (Suc (Suc 0))) example_platform example_chunks example_loop (example_running []) =
     Ok (example_running [(''r'', [0x3FF0000000000000]), (''r'', [0x4018000000000000])]) \<and>
   invoke (Suc (Suc (Suc (Suc 0)))) example_platform example_chunks
     (ForRange (AccessConstant 0x4008000000000000) (AccessConstant 0x3FF0000000000000) 3 True)
     (example_running []) =
     Ok (example_running [(''r'', [0x4008000000000000]), (''r'', [0x4000000000000000]),
                          (''r'', [0x3FF0000000000000])])"
proof
  have 1: "compile_for_loop (AccessConstant 0x3FF0000000000000) (AccessConstant 0x4014000000000000)
             (AccessConstant 0x4024000000000000) 3 True = Ok example_loop"
    by (simp add: compile_for_loop_def example_loop_def)
  have 2: "AccessConstant 0x4024000000000000 \<noteq> NullExpr" by simp
  have 3: "call example_platform (AccessConstant 0x3FF0000000000000) (example_running []) =
             Ok (0x3FF0000000000000, example_running [])" by simp
  have 4: "if AccessConstant 0x4014000000000000 = NullExpr
           then 0x4014000000000000 = d_one \<and> example_running [] = example_running []
           else call example_platform (AccessConstant 0x4014000000000000) (example_running []) =
                  Ok (0x4014000000000000, example_running [])" by simp
  have 5: "call example_platform (AccessConstant 0x4024000000000000) (example_running []) =
             Ok (0x4024000000000000, example_running [])" by simp
  have 6: "\<forall>i<Suc (Suc 0). in_range 0x3FF0000000000000 0x4024000000000000
             (loop_value example_platform 0x3FF0000000000000 0x4014000000000000 0x4024000000000000 i)"
    by (auto simp: less_Suc_Suc_0 example_loop_values example_in_range)
  have 7: "\<not> in_range 0x3FF0000000000000 0x4024000000000000
             (loop_value example_platform 0x3FF0000000000000 0x4014000000000000 0x4024000000000000
                (Suc (Suc 0)))"
    by (simp add: example_loop_values example_in_range)
  have 8: "Suc (Suc 0) \<le> Suc (Suc 0)" by simp
  from for_loop_runs_at_values [OF 1 2 3 4 5 6 7 8, of example_chunks]
  show "invoke (Suc (Suc (Suc 0))) example_platform example_chunks example_loop (example_running []) =
     Ok (example_running [(''r'', [0x3FF0000000000000]), (''r'', [0x4018000000000000])])"
    by (simp add: example_loop_values example_round)
next
  let ?stmt = "ForRange (AccessConstant 0x4008000000000000) (AccessConstant 0x3FF0000000000000) 3 True"
  have 1: "compile_for_loop (AccessConstant 0x4008000000000000) NullExpr
             (AccessConstant 0x3FF0000000000000) 3 True = Ok ?stmt"
    by (simp add: compile_for_loop_def)
  have 2: "AccessConstant 0x3FF0000000000000 \<noteq> NullExpr" by simp
  have 3: "call example_platform (AccessConstant 0x4008000000000000) (example_running []) =
             Ok (0x4008000000000000, example_running [])" by simp
  have 4: "if NullExpr = NullExpr
           then d_one = d_one \<and> example_running [] = example_running []
           else call example_platform NullExpr (example_running []) =
                  Ok (d_one, example_running [])" by simp
  have 5: "call example_platform (AccessConstant 0x3FF0000000000000) (example_running []) =
             Ok (0x3FF0000000000000, example_running [])" by simp
  have 6: "\<forall>i<Suc (Suc (Suc 0)). in_range 0x4008000000000000 0x3FF0000000000000
             (loop_value example_platform 0x4008000000000000 d_one 0x3FF0000000000000 i)"
    by (auto simp: less_Suc_Suc_Suc_0 example_down_values example_down_in_range)
  have 7: "\<not> in_range 0x4008000000000000 0x3FF0000000000000
             (loop_value example_platform 0x4008000000000000 d_one 0x3FF0000000000000
                (Suc (Suc (Suc 0))))"
    by (simp add: example_down_values example_down_in_range)
  have 8: "Suc (Suc (Suc 0)) \<le> Suc (Suc (Suc 0))" by simp
  from for_loop_runs_at_values [OF 1 2 3 4 5 6 7 8, of example_chunks]
  show "invoke (Suc (Suc (Suc (Suc 0)))) example_platform example_chunks ?stmt (example_running []) =
     Ok (example_running [(''r'', [0x4008000000000000]), (''r'', [0x4000000000000000]),
                          (''r'', [0x3FF0000000000000])])"
    by (simp add: example_down_values example_round)
qed

text \<open>
  Claim C3, as amended.  \<open>exec_statements\<close> throws \<open>InfiniteRecursionException\<close> before it
  runs any statement exactly when the locals stack holds at least 1,000,000 values or the
  captures stack holds at least 1,000,000 values; otherwise it executes the statements.
  Each stack is compared with the limit on its own.
\<close>

theorem exec_statements_recursion_guard:
  "exec_statements run stmts e =
     (if 1000000 \<le> get_stack_size (m_locals (m_engine_stack e)) \<or>
         1000000 \<le> get_stack_size (m_captures (m_engine_stack e))
      then Fatal InfiniteRecursionException
      else exec_each run stmts e) \<and>
   (exec_statements run [] e = Fatal InfiniteRecursionException \<longleftrightarrow>
      1000000 \<le> get_stack_size (m_locals (m_engine_stack e)) \<or>
      1000000 \<le> get_stack_size (m_captures (m_engine_stack e)))"
  by (auto simp: exec_statements_def check_stack_size_def infinite_recursion_limit_def)

theorem exec_statements_recursion_guard_witness:
  "exec_statements (invoke (Suc 0) example_platform example_chunks) [BreakpointStatement]
       (engine_with_stack_sizes 999999 999999)
     = Ok (engine_with_stack_sizes 999999 999999) \<and>
   exec_statements (invoke (Suc 0) example_platform example_chunks) [BreakpointStatement]
       (engine_with_stack_sizes 0 1000000)
     = Fatal InfiniteRecursionException"
  using exec_statements_recursion_guard
    [of "invoke (Suc 0) example_platform example_chunks" "[BreakpointStatement]"
        "engine_with_stack_sizes 999999 999999"]
    exec_statements_recursion_guard
    [of "invoke (Suc 0) example_platform example_chunks" "[BreakpointStatement]"
        "engine_with_stack_sizes 0 1000000"]
  by (simp add: engine_with_stack_sizes_def get_stack_size_def exec_statement_def new_engine_def
      example_turtle_def)

text \<open>
  Claim C3, as stated, fails when the two stacks together hold 1,000,000 values and neither
  holds that many: with 600,000 locals and 400,000 captures no exception is thrown.
\<close>

theorem combined_stack_size_counterexample:
  "exec_statements (invoke (Suc 0) example_platform example_chunks) []
       (engine_with_stack_sizes 600000 400000)
     = Ok (engine_with_stack_sizes 600000 400000) \<and>
   locals (stack_get_stack_size (m_engine_stack (engine_with_stack_sizes 600000 400000))) +
   captures (stack_get_stack_size (m_engine_stack (engine_with_stack_sizes 600000 400000)))
     = infinite_recursion_limit"
  by (simp add: exec_statements_def check_stack_size_def infinite_recursion_limit_def
      engine_with_stack_sizes_def get_stack_size_def stack_get_stack_size_def)

text \<open>
  Claim C8.  When \<open>execute_main\<close> returns without a fatal error, the locals stack and the
  captures stack are both empty, and no frame is left on either of them: the runtime
  stacks are as \<open>reset\<close> leaves them.  This holds for every list of chunks and every
  starting state of the engine.
\<close>

theorem execute_main_leaves_stacks_empty:
  assumes "execute_main fuel pf m_chunks no_chunk chunk_index e = Ok e'"
  shows "stack_get_stack_size (m_engine_stack e') = \<lparr>locals = 0, captures = 0\<rparr>
    \<and> m_engine_stack e' = stack_reset"
proof
  from assms show "stack_get_stack_size (m_engine_stack e') = \<lparr>locals = 0, captures = 0\<rparr>"
    by (rule execute_main_balanced)
  from assms show "m_engine_stack e' = stack_reset"
    by (rule execute_main_resets)
qed

theorem execute_main_leaves_stacks_empty_witness:
  "execute_main (Suc (Suc (Suc 0))) example_platform example_chunks 0 2 (engine_with_stack_sizes 3 2) =
     Ok ((new_engine example_turtle)
           \<lparr>m_is_executing := True,
            m_turtle := example_turtle
              \<lparr>turtle_calls := [(''r'', [0x3FF0000000000000]), (''r'', [0x4018000000000000])]\<rparr>\<rparr>) \<and>
   stack_get_stack_size (m_engine_stack ((new_engine example_turtle)
           \<lparr>m_is_executing := True,
            m_turtle := example_turtle
              \<lparr>turtle_calls := [(''r'', [0x3FF0000000000000]), (''r'', [0x4018000000000000])]\<rparr>\<rparr>))
     = \<lparr>locals = 0, captures = 0\<rparr> \<and>
   m_engine_stack ((new_engine example_turtle)
           \<lparr>m_is_executing := True,
            m_turtle := example_turtle
              \<lparr>turtle_calls := [(''r'', [0x3FF0000000000000]), (''r'', [0x4018000000000000])]\<rparr>\<rparr>)
     = stack_reset"
  using execute_main_leaves_stacks_empty [OF example_main_run [of 0]] example_main_run [of 0]
  by (simp add: stack_get_stack_size_def get_stack_size_def stack_reset_def reset_def)

text \<open>
  Claim C9, as amended.  Every evaluation of \<^verbatim>\<open>unique\<close> returns the value of the counter
  and adds one to it, and the counter of a new engine is 1: the \<open>k\<close>-th evaluation returns
  \<open>k\<close>, for every \<open>k\<close> up to \<open>2 ^ 31 - 1\<close>.  The counter is an \<^verbatim>\<open>int\<close>.
\<close>

theorem unique_returns_consecutive_integers:
  assumes "0 < k" and "k < 2 ^ 31"
  shows "unique_value_at pf k (new_engine t) = Ok (double_of_int (int k)) \<and>
         call pf compile_unique_val_expr e =
           Ok (double_of_int (sint (m_next_unique_num e)),
               e\<lparr>m_next_unique_num := m_next_unique_num e + 1\<rparr>)"
  using unique_counts_up [OF assms] by (simp add: compile_unique_val_expr_def)

theorem unique_returns_consecutive_integers_witness:
  "unique_value_at example_platform 3 (new_engine example_turtle) = Ok 0x4008000000000000"
proof -
  have "(0::nat) < 3" and "(3::nat) < 2 ^ 31" by simp_all
  from unique_returns_consecutive_integers [OF this] show ?thesis
    by (simp add: double_of_int_eval)
qed

text \<open>
  Claim C9, as stated, fails at the \<open>2 ^ 31\<close>-th evaluation: the counter has left the range
  of \<^verbatim>\<open>int\<close> (the model wraps around, as two's complement hardware does), and the value
  returned is -2147483648.0, not 2147483648.0.
\<close>

theorem unique_overflow_counterexample:
  "unique_value_at example_platform 2147483648 (new_engine example_turtle) = Ok 0xC1E0000000000000 \<and>
   double_of_int 2147483648 = 0x41E0000000000000"
  by (simp add: unique_overflow double_of_int_eval)

end
